theory Spec2Isabelle
  imports Complex_Main "HOL-Library.Multiset"
begin

section \<open>Python floats\<close>

text \<open>
  A Python \<^verbatim>\<open>float\<close> is an IEEE 754 binary64 value: a finite value, given here by the
  rational number it stands for, an infinity, or NaN. \<open>-0.0\<close> and \<open>0.0\<close> are one value, as
  \<^verbatim>\<open>==\<close> has it; nothing below divides by zero or prints a float, so the sign of zero is
  never looked at. The integers \<open>0\<close> and \<open>100\<close> that \<^verbatim>\<open>get_progress\<close> mixes with floats are
  the finite values 0 and 100.
\<close>

datatype pyfloat = FFinite rat | FInf | FNegInf | FNaN

instantiation pyfloat :: zero
begin

definition zero_pyfloat :: pyfloat where
  "zero_pyfloat = FFinite 0"

instance ..

end

definition pow2 :: "int \<Rightarrow> rat" where
  "pow2 k = (if 0 \<le> k then 2 ^ nat k else 1 / 2 ^ nat (- k))"

text \<open>\<^verbatim>\<open>n.bit_length()\<close>: the number of binary digits of \<open>n\<close>.\<close>

fun bit_length :: "nat \<Rightarrow> nat" where
  "bit_length n = (if n = 0 then 0 else Suc (bit_length (n div 2)))"

declare bit_length.simps [simp del]

text \<open>For \<open>q > 0\<close>, the exponent \<open>e\<close> with \<open>2 ^ e \<le> q < 2 ^ (e + 1)\<close>.\<close>

definition binade :: "rat \<Rightarrow> int" where
  "binade q =
     (if 1 \<le> q then int (bit_length (nat \<lfloor>q\<rfloor>)) - 1
      else - int (bit_length (nat (\<lceil>1 / q\<rceil> - 1))))"

text \<open>The nearest integer, a tie going to the even one.\<close>

definition round_half_even :: "rat \<Rightarrow> int" where
  "round_half_even x =
     (let n = \<lfloor>x\<rfloor>; r = x - of_int n
      in if r < 1 / 2 then n else if 1 / 2 < r then n + 1 else if even n then n else n + 1)"

text \<open>
  Rounding to the binary64 grid: 53 significant bits, the spacing never below
  \<open>2 ^ - 1074\<close> (subnormal numbers), ties to even. The result may lie beyond the largest
  float; \<open>round_float\<close> then gives an infinity, as float arithmetic does, and
  \<open>float_of_int\<close> raises \<^verbatim>\<open>OverflowError\<close>, as \<^verbatim>\<open>float(n)\<close> does for an \<^verbatim>\<open>int\<close>.
\<close>

definition nearest64 :: "rat \<Rightarrow> rat" where
  "nearest64 q =
     (if q = 0 then 0
      else let u = pow2 (max (binade \<bar>q\<bar>) (- 1022) - 52);
               m = of_int (round_half_even (\<bar>q\<bar> / u)) * u
           in if q < 0 then - m else m)"

definition round_float :: "rat \<Rightarrow> pyfloat" where
  "round_float q =
     (let r = nearest64 q
      in if pow2 1024 \<le> r then FInf else if r \<le> - pow2 1024 then FNegInf else FFinite r)"

text \<open>\<^verbatim>\<open>x < y\<close> on floats: false whenever NaN takes part.\<close>

fun fless :: "pyfloat \<Rightarrow> pyfloat \<Rightarrow> bool" where
  "fless FNaN y = False"
| "fless x FNaN = False"
| "fless (FFinite a) (FFinite b) = (a < b)"
| "fless FNegInf y = (y \<noteq> FNegInf)"
| "fless x FInf = (x \<noteq> FInf)"
| "fless x y = False"

text \<open>\<^verbatim>\<open>max(a, b)\<close> and \<^verbatim>\<open>min(a, b)\<close>: the first argument unless the second is strictly better.\<close>

definition py_max :: "pyfloat \<Rightarrow> pyfloat \<Rightarrow> pyfloat" where
  "py_max a b = (if fless a b then b else a)"

definition py_min :: "pyfloat \<Rightarrow> pyfloat \<Rightarrow> pyfloat" where
  "py_min a b = (if fless b a then b else a)"

section \<open>Python values crossing the player's control channel\<close>

text \<open>
  \<^verbatim>\<open>json.loads\<close> turns a reply of the player into a Python value. A dict is kept as the
  list of its items and read with \<open>map_of\<close>. A number without fraction or exponent becomes
  an \<^verbatim>\<open>int\<close> of any size, every other number the nearest \<^verbatim>\<open>float\<close>.
\<close>

datatype json =
    JNull
  | JBool bool
  | JInt int
  | JFloat pyfloat
  | JString string
  | JArray "json list"
  | JObject "(string \<times> json) list"

text \<open>The exception classes the player's \<^verbatim>\<open>except\<close> clauses tell apart.\<close>

datatype exn =
    OSError
  | ConnectionRefusedError
  | FileNotFoundError
  | ProcessLookupError
  | TimeoutError
  | PermissionError
  | ValueError
  | JSONDecodeError
  | UnicodeDecodeError
  | KeyError
  | TypeError
  | IndexError
  | ZeroDivisionError
  | OverflowError

text \<open>\<^verbatim>\<open>isinstance(e, OSError)\<close>; \<^verbatim>\<open>socket.error\<close> is an alias of \<^verbatim>\<open>OSError\<close>.\<close>

fun is_OSError :: "exn \<Rightarrow> bool" where
  "is_OSError OSError = True"
| "is_OSError ConnectionRefusedError = True"
| "is_OSError FileNotFoundError = True"
| "is_OSError ProcessLookupError = True"
| "is_OSError TimeoutError = True"
| "is_OSError PermissionError = True"
| "is_OSError _ = False"

text \<open>\<^verbatim>\<open>isinstance(e, ValueError)\<close>.\<close>

fun is_ValueError :: "exn \<Rightarrow> bool" where
  "is_ValueError ValueError = True"
| "is_ValueError JSONDecodeError = True"
| "is_ValueError UnicodeDecodeError = True"
| "is_ValueError _ = False"

text \<open>Truth value of a Python object, as \<^verbatim>\<open>if x:\<close> and \<^verbatim>\<open>not x\<close> take it.\<close>

fun truthy :: "json \<Rightarrow> bool" where
  "truthy JNull = False"
| "truthy (JBool b) = b"
| "truthy (JInt i) = (i \<noteq> 0)"
| "truthy (JFloat x) = (x \<noteq> FFinite 0)"
| "truthy (JString t) = (t \<noteq> [])"
| "truthy (JArray xs) = (xs \<noteq> [])"
| "truthy (JObject kv) = (kv \<noteq> [])"

definition py_not :: "json \<Rightarrow> json" where
  "py_not v = JBool (\<not> truthy v)"

text \<open>\<^verbatim>\<open>k in t\<close> on two strings: \<open>k\<close> occurs in \<open>t\<close> as a contiguous piece.\<close>

fun contains :: "string \<Rightarrow> string \<Rightarrow> bool" where
  "contains k [] = (k = [])"
| "contains k (c # t) = (take (length k) (c # t) = k \<or> contains k t)"

text \<open>
  \<^verbatim>\<open>k in x\<close> for a parsed reply \<open>x\<close>: key membership on a dict, element membership on a
  list, substring test on a string, \<^verbatim>\<open>TypeError\<close> on \<^verbatim>\<open>None\<close>, booleans and numbers.
\<close>

fun py_in :: "string \<Rightarrow> json \<Rightarrow> exn + bool" where
  "py_in k (JObject kv) = Inr (map_of kv k \<noteq> None)"
| "py_in k (JArray xs) = Inr (JString k \<in> set xs)"
| "py_in k (JString t) = Inr (contains k t)"
| "py_in k _ = Inl TypeError"

text \<open>\<^verbatim>\<open>x[k]\<close> with a string key: only a dict can be read that way.\<close>

fun py_getitem :: "json \<Rightarrow> string \<Rightarrow> exn + json" where
  "py_getitem (JObject kv) k = (case map_of kv k of None \<Rightarrow> Inl KeyError | Some v \<Rightarrow> Inr v)"
| "py_getitem _ k = Inl TypeError"

text \<open>
  \<^verbatim>\<open>float(n)\<close> for an \<^verbatim>\<open>int\<close>: the nearest float, or \<^verbatim>\<open>OverflowError\<close> when that lies beyond
  the largest one.
\<close>

definition float_of_int :: "int \<Rightarrow> exn + pyfloat" where
  "float_of_int n =
     (case round_float (of_int n) of FFinite r \<Rightarrow> Inr (FFinite r) | _ \<Rightarrow> Inl OverflowError)"

text \<open>
  \<^verbatim>\<open>float(v)\<close>. What \<^verbatim>\<open>float\<close> makes of a string is Python's own grammar of number
  literals, taken as the parameter \<open>fl\<close> (\<open>None\<close> where \<^verbatim>\<open>float\<close> raises \<^verbatim>\<open>ValueError\<close>).
\<close>

fun py_float :: "(string \<Rightarrow> pyfloat option) \<Rightarrow> json \<Rightarrow> exn + pyfloat" where
  "py_float fl (JFloat x) = Inr x"
| "py_float fl (JInt n) = float_of_int n"
| "py_float fl (JBool b) = Inr (FFinite (if b then 1 else 0))"
| "py_float fl (JString t) = (case fl t of None \<Rightarrow> Inl ValueError | Some x \<Rightarrow> Inr x)"
| "py_float fl _ = Inl TypeError"

text \<open>
  \<^verbatim>\<open>x / y\<close> on floats: \<^verbatim>\<open>ZeroDivisionError\<close> for a zero divisor, otherwise the IEEE
  quotient, which overflows to an infinity without raising.
\<close>

fun fdiv :: "pyfloat \<Rightarrow> pyfloat \<Rightarrow> exn + pyfloat" where
  "fdiv x (FFinite d) =
     (if d = 0 then Inl ZeroDivisionError
      else Inr (case x of
                  FFinite p \<Rightarrow> round_float (p / d)
                | FInf \<Rightarrow> if 0 < d then FInf else FNegInf
                | FNegInf \<Rightarrow> if 0 < d then FNegInf else FInf
                | FNaN \<Rightarrow> FNaN))"
| "fdiv (FFinite p) FInf = Inr (FFinite 0)"
| "fdiv (FFinite p) FNegInf = Inr (FFinite 0)"
| "fdiv x y = Inr FNaN"

text \<open>\<^verbatim>\<open>x * y\<close> on floats.\<close>

fun fmul :: "pyfloat \<Rightarrow> pyfloat \<Rightarrow> pyfloat" where
  "fmul FNaN y = FNaN"
| "fmul x FNaN = FNaN"
| "fmul (FFinite a) (FFinite b) = round_float (a * b)"
| "fmul (FFinite a) y = (if a = 0 then FNaN else if (0 < a) = (y = FInf) then FInf else FNegInf)"
| "fmul x (FFinite b) = (if b = 0 then FNaN else if (0 < b) = (x = FInf) then FInf else FNegInf)"
| "fmul x y = (if x = y then FInf else FNegInf)"

text \<open>
  \<^verbatim>\<open>xs[i]\<close>: positions \<open>0 .. len - 1\<close> read forwards, \<open>-len .. -1\<close> read from the end, and
  any other position raises \<^verbatim>\<open>IndexError\<close>.
\<close>

definition py_index :: "'a list \<Rightarrow> int \<Rightarrow> exn + 'a" where
  "py_index xs i =
     (if 0 \<le> i \<and> i < int (length xs) then Inr (xs ! nat i)
      else if - int (length xs) \<le> i \<and> i < 0 then Inr (xs ! nat (int (length xs) + i))
      else Inl IndexError)"

text \<open>The bound of a slice \<^verbatim>\<open>xs[k:]\<close> or \<^verbatim>\<open>xs[:k]\<close>, clipped to the list as Python does.\<close>

definition slice_bound :: "'a list \<Rightarrow> int \<Rightarrow> nat" where
  "slice_bound xs k =
     (if k < 0 then nat (max 0 (int (length xs) + k)) else min (nat k) (length xs))"

definition slice_from :: "'a list \<Rightarrow> int \<Rightarrow> 'a list" where
  "slice_from xs k = drop (slice_bound xs k) xs"

definition slice_upto :: "'a list \<Rightarrow> int \<Rightarrow> 'a list" where
  "slice_upto xs k = take (slice_bound xs k) xs"

text \<open>
  \<^verbatim>\<open>random.shuffle(x)\<close> is the standard library's loop
  \<^verbatim>\<open>for i in reversed(range(1, len(x))): j = randbelow(i + 1); x[i], x[j] = x[j], x[i]\<close>.
  The draws are the parameter \<open>rb\<close>: \<open>rb k\<close> is what \<^verbatim>\<open>randbelow(k)\<close> returned, reduced
  modulo \<open>k\<close> since \<^verbatim>\<open>randbelow(k)\<close> lies in \<open>0 .. k - 1\<close>.
\<close>

primrec shuffle_down :: "(nat \<Rightarrow> nat) \<Rightarrow> nat \<Rightarrow> 'a list \<Rightarrow> 'a list" where
  "shuffle_down rb 0 xs = xs"
| "shuffle_down rb (Suc k) xs =
     (let i = Suc k; j = rb (Suc i) mod Suc i
      in shuffle_down rb k (xs[i := xs ! j, j := xs ! i]))"

definition random_shuffle :: "(nat \<Rightarrow> nat) \<Rightarrow> 'a list \<Rightarrow> 'a list" where
  "random_shuffle rb xs = shuffle_down rb (length xs - 1) xs"

section \<open>The player object and the world around it\<close>

text \<open>
  The attributes of \<^verbatim>\<open>MusicPlayer\<close> that playback reads and writes (the curses window and
  the cached screen size are left out). \<open>player_process\<close> holds the handle that \<^verbatim>\<open>Popen\<close>
  returned, \<open>paused\<close> whatever Python object was last assigned to it.
\<close>

record music_player =
  selected_index :: int
  playlists :: "string list"
  current_playlist :: "string option"
  songs :: "string list"
  current_song_index :: int
  shuffle :: bool
  player_process :: "nat option"
  ipc_socket :: "string option"
  paused :: json
  current_song_info :: string

definition PLAYER_CMD :: string where
  "PLAYER_CMD = ''mpv''"

text \<open>The object \<^verbatim>\<open>__init__\<close> builds.\<close>

definition init :: music_player where
  "init = \<lparr> selected_index = 0, playlists = [], current_playlist = None, songs = [],
            current_song_index = 0, shuffle = False, player_process = None,
            ipc_socket = None, paused = JBool False, current_song_info = [] \<rparr>"

text \<open>How \<^verbatim>\<open>terminate(); wait(timeout=1)\<close> ends in \<^verbatim>\<open>stop_playback\<close>.\<close>

datatype stop_outcome =
    Exited
  | WaitTimedOut
  | AlreadyGone

text \<open>What \<^verbatim>\<open>json.loads\<close> makes of a received line, and how one send/receive round ends.\<close>

datatype payload = Malformed | Parsed json

datatype exchange =
    SendRaises exn
  | RecvRaises exn
  | NotUtf8
  | Received payload

text \<open>
  Everything one method call observes of its surroundings: the file system, the random
  generator, the operating system and the player at the other end of the socket. Each
  observation is made at most once during a call of a method below, so one record
  describes one call. \<open>w_parse_m3u8\<close> is the result of \<^verbatim>\<open>parse_m3u8\<close> (a pure reading of
  the playlist files), \<open>w_get_song_info\<close> the label \<^verbatim>\<open>get_song_info\<close> returns (its outer
  handler catches every exception, so it always returns one), \<open>w_socket_name\<close> the path
  built from the temporary directory and the process id.
\<close>

record world =
  w_parse_m3u8 :: "string \<Rightarrow> exn + string list"
  w_randbelow :: "nat \<Rightarrow> nat"
  w_get_song_info :: "string \<Rightarrow> string"
  w_socket_name :: string
  w_popen :: "exn + nat"
  w_stop :: stop_outcome
  w_socket_exists :: bool
  w_poll :: "int option"
  w_send_signal :: "exn option"
  w_connect :: "exn option"
  w_reply1 :: exchange
  w_reply2 :: exchange
  w_float :: "string \<Rightarrow> pyfloat option"

text \<open>
  The calls a method makes that act on the player process, the socket or the file
  system, in the order made. Liveness polls and existence tests only observe and are
  not listed.
\<close>

datatype signal = SIGSTOP | SIGCONT

datatype action =
    Terminate nat
  | Wait nat
  | Kill nat
  | Unlink string
  | Spawn "string list"
  | SendSignal nat signal
  | SockConnect string
  | SockSend "string list"
  | SockRecv
  | SockClose

section \<open>Starting and stopping the external player\<close>

text \<open>\<^verbatim>\<open>self.ipc_socket and Path(self.ipc_socket).exists()\<close>.\<close>

definition socket_ready :: "world \<Rightarrow> music_player \<Rightarrow> bool" where
  "socket_ready w s =
     (case ipc_socket s of None \<Rightarrow> False | Some path \<Rightarrow> path \<noteq> [] \<and> w_socket_exists w)"

definition stop_playback :: "world \<Rightarrow> music_player \<Rightarrow> music_player \<times> action list" where
  "stop_playback w s =
     (let (s1, a1) =
        (case player_process s of
           None \<Rightarrow> (s, [])
         | Some p \<Rightarrow>
             (s\<lparr>player_process := None\<rparr>,
              case w_stop w of
                Exited \<Rightarrow> [Terminate p, Wait p]
              | WaitTimedOut \<Rightarrow> [Terminate p, Wait p, Kill p]
              | AlreadyGone \<Rightarrow> [Terminate p]));
          a2 = (if socket_ready w s1 then [Unlink (the (ipc_socket s1))] else [])
      in (s1\<lparr>ipc_socket := None\<rparr>, a1 @ a2))"

text \<open>\<^verbatim>\<open>f"Error: {PLAYER_CMD} not found"\<close>.\<close>

definition not_found_label :: string where
  "not_found_label = ''Error: '' @ PLAYER_CMD @ '' not found''"

definition player_argv :: "string \<Rightarrow> string \<Rightarrow> string list" where
  "player_argv sock song_path =
     [PLAYER_CMD, ''--no-terminal'', ''--no-video'', ''--input-ipc-server='' @ sock, song_path]"

definition play_current_song :: "world \<Rightarrow> music_player \<Rightarrow> exn + music_player \<times> action list" where
  "play_current_song w s =
     (if songs s = [] \<or> current_song_index s \<ge> int (length (songs s)) then Inr (s, [])
      else
        case stop_playback w s of (s1, a1) \<Rightarrow>
        (case py_index (songs s1) (current_song_index s1) of
           Inl e \<Rightarrow> Inl e
         | Inr song_path \<Rightarrow>
             (let s2 = s1\<lparr>current_song_info := w_get_song_info w song_path,
                         paused := JBool False,
                         ipc_socket := Some (w_socket_name w)\<rparr>;
                  a2 = a1 @ [Spawn (player_argv (w_socket_name w) song_path)]
              in case w_popen w of
                   Inr p \<Rightarrow> Inr (s2\<lparr>player_process := Some p\<rparr>, a2)
                 | Inl e \<Rightarrow>
                     if e = FileNotFoundError
                     then Inr (s2\<lparr>current_song_info := not_found_label\<rparr>, a2)
                     else Inl e)))"

section \<open>Moving through the playlist\<close>

definition start_playlist :: "world \<Rightarrow> string \<Rightarrow> music_player \<Rightarrow> exn + music_player \<times> action list" where
  "start_playlist w playlist_name s =
     (case w_parse_m3u8 w playlist_name of
        Inl e \<Rightarrow> Inl e
      | Inr tracks \<Rightarrow>
          let s1 = s\<lparr>current_playlist := Some playlist_name, songs := tracks\<rparr> in
          if songs s1 = [] then Inr (s1, [])
          else
            let s2 = (if shuffle s1 then s1\<lparr>songs := random_shuffle (w_randbelow w) (songs s1)\<rparr>
                      else s1)
            in play_current_song w (s2\<lparr>current_song_index := 0\<rparr>))"

definition next_song :: "world \<Rightarrow> music_player \<Rightarrow> exn + music_player \<times> action list" where
  "next_song w s =
     (if songs s = [] then Inr (s, [])
      else play_current_song w
             (s\<lparr>current_song_index := (current_song_index s + 1) mod int (length (songs s))\<rparr>))"

definition previous_song :: "world \<Rightarrow> music_player \<Rightarrow> exn + music_player \<times> action list" where
  "previous_song w s =
     (if songs s = [] then Inr (s, [])
      else play_current_song w
             (s\<lparr>current_song_index := (current_song_index s - 1) mod int (length (songs s))\<rparr>))"

definition toggle_shuffle :: "world \<Rightarrow> music_player \<Rightarrow> music_player" where
  "toggle_shuffle w s =
     (let s1 = s\<lparr>shuffle := \<not> shuffle s\<rparr> in
      if songs s1 \<noteq> [] \<and> current_song_index s1 < int (length (songs s1)) then
        let remaining = slice_from (songs s1) (current_song_index s1 + 1) in
        if remaining \<noteq> [] then
          s1\<lparr>songs := slice_upto (songs s1) (current_song_index s1 + 1)
                        @ random_shuffle (w_randbelow w) remaining\<rparr>
        else s1
      else s1)"

definition check_player_status :: "world \<Rightarrow> music_player \<Rightarrow> exn + music_player \<times> action list" where
  "check_player_status w s =
     (case player_process s of
        None \<Rightarrow> Inr (s, [])
      | Some p \<Rightarrow> if w_poll w \<noteq> None then next_song w s else Inr (s, []))"

section \<open>Talking to the player over its socket\<close>

text \<open>
  One \<^verbatim>\<open>sock.send(...)\<close> followed by \<^verbatim>\<open>sock.recv(1024).decode('utf-8')\<close>, and
  \<^verbatim>\<open>json.loads\<close> of what was received.
\<close>

definition send_recv :: "string list \<Rightarrow> exchange \<Rightarrow> (exn + payload) \<times> action list" where
  "send_recv cmd x =
     (case x of
        SendRaises e \<Rightarrow> (Inl e, [SockSend cmd])
      | RecvRaises e \<Rightarrow> (Inl e, [SockSend cmd, SockRecv])
      | NotUtf8 \<Rightarrow> (Inl UnicodeDecodeError, [SockSend cmd, SockRecv])
      | Received response \<Rightarrow> (Inr response, [SockSend cmd, SockRecv]))"

definition json_loads :: "payload \<Rightarrow> exn + json" where
  "json_loads response = (case response of Malformed \<Rightarrow> Inl JSONDecodeError | Parsed v \<Rightarrow> Inr v)"

section \<open>Pausing and resuming\<close>

text \<open>
  The signal fallback of \<^verbatim>\<open>toggle_play_pause\<close>, written twice in the source with the
  same text: \<^verbatim>\<open>SIGCONT\<close> when paused, \<^verbatim>\<open>SIGSTOP\<close> otherwise, and the handle dropped when
  the signal cannot be delivered.
\<close>

definition signal_toggle :: "world \<Rightarrow> nat \<Rightarrow> music_player \<Rightarrow> exn + music_player \<times> action list" where
  "signal_toggle w p s =
     (let a = [SendSignal p (if truthy (paused s) then SIGCONT else SIGSTOP)] in
      case w_send_signal w of
        None \<Rightarrow> Inr (s\<lparr>paused := JBool (\<not> truthy (paused s))\<rparr>, a)
      | Some e \<Rightarrow>
          if e = ProcessLookupError \<or> is_OSError e
          then Inr (s\<lparr>player_process := None, paused := JBool False\<rparr>, a)
          else Inl e)"

text \<open>The body of the inner \<^verbatim>\<open>try\<close>: parse the first reply, then read the pause property back.\<close>

definition read_pause_back :: "world \<Rightarrow> music_player \<Rightarrow> payload \<Rightarrow> (exn + music_player) \<times> action list" where
  "read_pause_back w s response =
     (case json_loads response of
        Inl e \<Rightarrow> (Inl e, [])
      | Inr result \<Rightarrow>
          (case send_recv [''get_property'', ''pause''] (w_reply2 w) of
             (Inl e, a) \<Rightarrow> (Inl e, a)
           | (Inr status_resp, a) \<Rightarrow>
               (case json_loads status_resp of
                  Inl e \<Rightarrow> (Inl e, a)
                | Inr status_result \<Rightarrow>
                    (case py_in ''data'' status_result of
                       Inl e \<Rightarrow> (Inl e, a)
                     | Inr present \<Rightarrow>
                         if present then
                           (case py_getitem status_result ''data'' of
                              Inl e \<Rightarrow> (Inl e, a)
                            | Inr v \<Rightarrow> (Inr (s\<lparr>paused := v\<rparr>), a))
                         else (Inr (s\<lparr>paused := py_not (paused s)\<rparr>), a)))))"

text \<open>The body of the outer \<^verbatim>\<open>try\<close>, with the inner handler for \<^verbatim>\<open>(JSONDecodeError, KeyError)\<close>.\<close>

definition ipc_toggle :: "world \<Rightarrow> string \<Rightarrow> music_player \<Rightarrow> (exn + music_player) \<times> action list" where
  "ipc_toggle w path s =
     (case w_connect w of
        Some e \<Rightarrow> (Inl e, [SockConnect path])
      | None \<Rightarrow>
          (case send_recv [''cycle'', ''pause''] (w_reply1 w) of
             (Inl e, a) \<Rightarrow> (Inl e, SockConnect path # a)
           | (Inr response, a) \<Rightarrow>
               (case read_pause_back w s response of
                  (Inr s', a') \<Rightarrow> (Inr s', SockConnect path # a @ a' @ [SockClose])
                | (Inl e, a') \<Rightarrow>
                    if e = JSONDecodeError \<or> e = KeyError
                    then (Inr (s\<lparr>paused := py_not (paused s)\<rparr>),
                          SockConnect path # a @ a' @ [SockClose])
                    else (Inl e, SockConnect path # a @ a'))))"

definition toggle_play_pause :: "world \<Rightarrow> music_player \<Rightarrow> exn + music_player \<times> action list" where
  "toggle_play_pause w s =
     (case player_process s of
        None \<Rightarrow> Inr (s, [])
      | Some p \<Rightarrow>
          if w_poll w \<noteq> None then Inr (s, [])
          else if \<not> socket_ready w s then signal_toggle w p s
          else
            (case ipc_toggle w (the (ipc_socket s)) s of
               (Inr s', a) \<Rightarrow> Inr (s', a)
             | (Inl e, a) \<Rightarrow>
                 if e = ConnectionRefusedError \<or> e = FileNotFoundError \<or> is_OSError e
                 then (case signal_toggle w p s of
                         Inl e' \<Rightarrow> Inl e'
                       | Inr (s', a') \<Rightarrow> Inr (s', a @ a'))
                 else Inl e))"

section \<open>The progress query\<close>

text \<open>
  \<^verbatim>\<open>x = 0.0\<close> followed by
  \<^verbatim>\<open>if 'data' in r and r['data'] is not None: x = float(r['data'])\<close>.
\<close>

definition read_property :: "(string \<Rightarrow> pyfloat option) \<Rightarrow> json \<Rightarrow> exn + pyfloat" where
  "read_property fl r =
     (case py_in ''data'' r of
        Inl e \<Rightarrow> Inl e
      | Inr present \<Rightarrow>
          if \<not> present then Inr (FFinite 0)
          else
            (case py_getitem r ''data'' of
               Inl e \<Rightarrow> Inl e
             | Inr v \<Rightarrow> if v = JNull then Inr (FFinite 0) else py_float fl v))"

text \<open>\<^verbatim>\<open>(position, duration, percentage)\<close>; the \<open>0\<close> of \<^verbatim>\<open>return (0, 0, 0)\<close> is \<open>FFinite 0\<close>.\<close>

type_synonym snapshot = "pyfloat \<times> pyfloat \<times> pyfloat"

text \<open>\<^verbatim>\<open>min(100, max(0, (position / duration) * 100))\<close>.\<close>

definition percentage_of :: "pyfloat \<Rightarrow> pyfloat \<Rightarrow> exn + pyfloat" where
  "percentage_of position duration =
     (case fdiv position duration of
        Inl e \<Rightarrow> Inl e
      | Inr ratio \<Rightarrow>
          Inr (py_min (FFinite 100) (py_max (FFinite 0) (fmul ratio (FFinite 100)))))"

text \<open>
  The body of the \<^verbatim>\<open>try\<close> in \<^verbatim>\<open>get_progress\<close>; \<open>None\<close> where it falls through to the
  final \<^verbatim>\<open>return (0, 0, 0)\<close> because the duration is not positive.
\<close>

definition query_progress :: "world \<Rightarrow> string \<Rightarrow> (exn + snapshot option) \<times> action list" where
  "query_progress w path =
     (case w_connect w of
        Some e \<Rightarrow> (Inl e, [SockConnect path])
      | None \<Rightarrow>
          (case send_recv [''get_property'', ''time-pos''] (w_reply1 w) of
             (Inl e, a) \<Rightarrow> (Inl e, SockConnect path # a)
           | (Inr pos_response, a) \<Rightarrow>
               (case json_loads pos_response of
                  Inl e \<Rightarrow> (Inl e, SockConnect path # a)
                | Inr pos_result \<Rightarrow>
                    (case send_recv [''get_property'', ''duration''] (w_reply2 w) of
                       (Inl e, a') \<Rightarrow> (Inl e, SockConnect path # a @ a')
                     | (Inr dur_response, a') \<Rightarrow>
                         (case json_loads dur_response of
                            Inl e \<Rightarrow> (Inl e, SockConnect path # a @ a')
                          | Inr dur_result \<Rightarrow>
                              (let done = SockConnect path # a @ a' @ [SockClose] in
                               case read_property (w_float w) pos_result of
                                 Inl e \<Rightarrow> (Inl e, done)
                               | Inr position \<Rightarrow>
                                   (case read_property (w_float w) dur_result of
                                      Inl e \<Rightarrow> (Inl e, done)
                                    | Inr duration \<Rightarrow>
                                        if fless (FFinite 0) duration
                                        then (case percentage_of position duration of
                                                Inl e \<Rightarrow> (Inl e, done)
                                              | Inr percentage \<Rightarrow>
                                                  (Inr (Some (position, duration, percentage)), done))
                                        else (Inr None, done))))))))"

definition get_progress :: "world \<Rightarrow> music_player \<Rightarrow> exn + snapshot \<times> action list" where
  "get_progress w s =
     (case player_process s of
        None \<Rightarrow> Inr ((0, 0, 0), [])
      | Some p \<Rightarrow>
          if w_poll w \<noteq> None then Inr ((0, 0, 0), [])
          else if \<not> socket_ready w s then Inr ((0, 0, 0), [])
          else
            (case query_progress w (the (ipc_socket s)) of
               (Inr (Some snap), a) \<Rightarrow> Inr (snap, a)
             | (Inr None, a) \<Rightarrow> Inr ((0, 0, 0), a)
             | (Inl e, a) \<Rightarrow>
                 if e = ConnectionRefusedError \<or> e = FileNotFoundError \<or> is_OSError e
                    \<or> e = JSONDecodeError \<or> e = KeyError \<or> is_ValueError e \<or> e = TimeoutError
                 then Inr ((0, 0, 0), a)
                 else Inl e))"

section \<open>Sequences of commands\<close>

text \<open>
  What the event loop of \<^verbatim>\<open>run\<close> does to the player: the methods it calls, the two
  navigation keys, which it handles in place, and \<^verbatim>\<open>play_current_song\<close>.
\<close>

datatype command =
    StartPlaylist string
  | PlayCurrentSong
  | NextSong
  | PreviousSong
  | ToggleShuffle
  | TogglePlayPause
  | CheckPlayerStatus
  | NavigateUp
  | NavigateDown

fun perform :: "world \<Rightarrow> command \<Rightarrow> music_player \<Rightarrow> exn + music_player \<times> action list" where
  "perform w (StartPlaylist playlist_name) s = start_playlist w playlist_name s"
| "perform w PlayCurrentSong s = play_current_song w s"
| "perform w NextSong s = next_song w s"
| "perform w PreviousSong s = previous_song w s"
| "perform w ToggleShuffle s = Inr (toggle_shuffle w s, [])"
| "perform w TogglePlayPause s = toggle_play_pause w s"
| "perform w CheckPlayerStatus s = check_player_status w s"
| "perform w NavigateUp s =
     (if playlists s = [] then Inl ZeroDivisionError
      else Inr (s\<lparr>selected_index := (selected_index s - 1) mod int (length (playlists s))\<rparr>, []))"
| "perform w NavigateDown s =
     (if playlists s = [] then Inl ZeroDivisionError
      else Inr (s\<lparr>selected_index := (selected_index s + 1) mod int (length (playlists s))\<rparr>, []))"

text \<open>
  A run of commands, each in the world it meets; an exception that escapes a method
  ends the program, so the run has no final state then. \<^verbatim>\<open>run\<close> enters its loop from
  \<open>loaded pls\<close>, the fresh object with the playlist names it found.
\<close>

definition loaded :: "string list \<Rightarrow> music_player" where
  "loaded pls = init\<lparr>playlists := pls\<rparr>"

fun run_commands :: "(command \<times> world) list \<Rightarrow> music_player \<Rightarrow> exn + music_player" where
  "run_commands [] s = Inr s"
| "run_commands ((c, w) # cs) s =
     (case perform w c s of
        Inl e \<Rightarrow> Inl e
      | Inr (s', a) \<Rightarrow> run_commands cs s')"

text \<open>\<^verbatim>\<open>next_song\<close> called once per world of the list; the index after each call is recorded.\<close>

fun next_songs :: "world list \<Rightarrow> music_player \<Rightarrow> exn + music_player \<times> int list" where
  "next_songs [] s = Inr (s, [])"
| "next_songs (w # ws) s =
     (case next_song w s of
        Inl e \<Rightarrow> Inl e
      | Inr (s', a) \<Rightarrow>
          (case next_songs ws s' of
             Inl e \<Rightarrow> Inl e
           | Inr (s'', trace) \<Rightarrow> Inr (s'', current_song_index s' # trace)))"

text \<open>The invariant of the playback session.\<close>

definition index_in_range :: "music_player \<Rightarrow> bool" where
  "index_in_range s =
     (songs s \<noteq> [] \<longrightarrow> 0 \<le> current_song_index s \<and> current_song_index s < int (length (songs s)))"

text \<open>
  The spawn either succeeds or fails for want of the binary: the outcomes
  \<^verbatim>\<open>play_current_song\<close> handles itself.
\<close>

definition spawn_settles :: "world \<Rightarrow> bool" where
  "spawn_settles w = (case w_popen w of Inr p \<Rightarrow> True | Inl e \<Rightarrow> e = FileNotFoundError)"

text \<open>
  A number clamped to the interval from 0 to 100, said without Python's \<^verbatim>\<open>min\<close> and
  \<^verbatim>\<open>max\<close>: a finite value is cut off at both ends, plus infinity becomes 100, minus
  infinity 0; NaN, which has no place on the line, becomes 0 as well.
\<close>

fun clamp_percent :: "pyfloat \<Rightarrow> pyfloat" where
  "clamp_percent (FFinite r) = FFinite (if r < 0 then 0 else if 100 < r then 100 else r)"
| "clamp_percent FInf = FFinite 100"
| "clamp_percent FNegInf = FFinite 0"
| "clamp_percent FNaN = FFinite 0"

text \<open>The socket calls of a complete pause toggle and of a complete progress query.\<close>

definition pause_dialogue :: "string \<Rightarrow> action list" where
  "pause_dialogue path =
     [SockConnect path, SockSend [''cycle'', ''pause''], SockRecv,
      SockSend [''get_property'', ''pause''], SockRecv, SockClose]"

definition progress_dialogue :: "string \<Rightarrow> action list" where
  "progress_dialogue path =
     [SockConnect path, SockSend [''get_property'', ''time-pos''], SockRecv,
      SockSend [''get_property'', ''duration''], SockRecv, SockClose]"

section \<open>Concrete worlds and sessions\<close>

text \<open>Replies as mpv words them: a value with a success status, or an error status alone.\<close>

definition reply_with :: "json \<Rightarrow> exchange" where
  "reply_with v = Received (Parsed (JObject [(''data'', v), (''error'', JString ''success'')]))"

definition reply_unavailable :: exchange where
  "reply_unavailable = Received (Parsed (JObject [(''error'', JString ''property unavailable'')]))"

text \<open>
  A world in which the playlist \<open>mix\<close> has three tracks, the player starts, and it answers
  the progress query with position 50 and duration 200.
\<close>

definition demo_world :: world where
  "demo_world =
     \<lparr> w_parse_m3u8 = (\<lambda>n. Inr (if n = ''mix'' then [''a.mp3'', ''b.mp3'', ''c.mp3''] else [])),
       w_randbelow = (\<lambda>k. 0),
       w_get_song_info = (\<lambda>p. p),
       w_socket_name = ''/tmp/mpv_music_player_7.sock'',
       w_popen = Inr 1,
       w_stop = Exited,
       w_socket_exists = True,
       w_poll = None,
       w_send_signal = None,
       w_connect = None,
       w_reply1 = reply_with (JFloat (FFinite 50)),
       w_reply2 = reply_with (JFloat (FFinite 200)),
       w_float = (\<lambda>t. None) \<rparr>"

text \<open>The player after \<open>mix\<close> was started in that world, shuffle off.\<close>

definition demo_started :: music_player where
  "demo_started =
     \<lparr> selected_index = 0, playlists = [], current_playlist = Some ''mix'',
       songs = [''a.mp3'', ''b.mp3'', ''c.mp3''], current_song_index = 0, shuffle = False,
       player_process = Some 1, ipc_socket = Some ''/tmp/mpv_music_player_7.sock'',
       paused = JBool False, current_song_info = ''a.mp3'' \<rparr>"

text \<open>A longer queue, playing its second track.\<close>

definition demo_queue :: music_player where
  "demo_queue = demo_started\<lparr>songs := [''a.mp3'', ''b.mp3'', ''c.mp3'', ''d.mp3'', ''e.mp3''],
                             current_song_index := 1\<rparr>"

text \<open>
  A session that uses every command: the last but one pauses over the socket, the last
  finds the player exited and advances.
\<close>

definition demo_session :: "(command \<times> world) list" where
  "demo_session =
     [(NavigateDown, demo_world), (NavigateUp, demo_world),
      (StartPlaylist ''mix'', demo_world), (PlayCurrentSong, demo_world), (NextSong, demo_world),
      (ToggleShuffle, demo_world), (PreviousSong, demo_world), (PreviousSong, demo_world),
      (TogglePlayPause,
         demo_world\<lparr>w_reply1 := reply_with JNull, w_reply2 := reply_with (JBool True)\<rparr>),
      (CheckPlayerStatus, demo_world\<lparr>w_poll := Some 0, w_popen := Inr 2\<rparr>)]"

definition demo_final :: music_player where
  "demo_final = demo_started\<lparr>playlists := [''mix''], shuffle := True, player_process := Some 2\<rparr>"

section \<open>Shuffling permutes\<close>

lemma length_shuffle_down: "length (shuffle_down rb k xs) = length xs"
  by (induction k arbitrary: xs) (simp_all add: Let_def)

lemma length_random_shuffle: "length (random_shuffle rb xs) = length xs"
  by (simp add: random_shuffle_def length_shuffle_down)

lemma mset_shuffle_down: "k < length xs \<Longrightarrow> mset (shuffle_down rb k xs) = mset xs"
proof (induction k arbitrary: xs)
  case 0
  then show ?case by simp
next
  case (Suc k)
  let ?j = "rb (Suc (Suc k)) mod Suc (Suc k)"
  have "?j < Suc (Suc k)" by simp
  then have j: "?j < length xs" using Suc.prems by linarith
  have "mset (xs[Suc k := xs ! ?j, ?j := xs ! Suc k]) = mset xs"
    using Suc.prems j by (simp add: mset_swap)
  moreover have "k < length (xs[Suc k := xs ! ?j, ?j := xs ! Suc k])"
    using Suc.prems by simp
  ultimately show ?case using Suc.IH by (simp add: Let_def)
qed

lemma mset_random_shuffle: "mset (random_shuffle rb xs) = mset xs"
  by (cases xs) (simp_all add: random_shuffle_def mset_shuffle_down)

section \<open>What each method leaves alone\<close>

lemma stop_playback_result:
  "\<exists>a. stop_playback w s = (s\<lparr>player_process := None, ipc_socket := None\<rparr>, a)"
  by (cases "player_process s") (simp_all add: stop_playback_def Let_def)

lemma stop_playback_frame:
  "stop_playback w s = (s', a) \<Longrightarrow>
     songs s' = songs s \<and> current_song_index s' = current_song_index s"
  using stop_playback_result [of w s] by auto

lemma play_current_song_frame:
  "play_current_song w s = Inr (s', a) \<Longrightarrow>
     songs s' = songs s \<and> current_song_index s' = current_song_index s"
  by (auto simp: play_current_song_def Let_def
      split: if_splits prod.splits sum.splits dest: stop_playback_frame)

lemma signal_toggle_frame:
  "signal_toggle w p s = Inr (s', a) \<Longrightarrow>
     songs s' = songs s \<and> current_song_index s' = current_song_index s"
  by (auto simp: signal_toggle_def Let_def split: option.splits if_splits)

lemma read_pause_back_frame:
  "read_pause_back w s r = (Inr s', a) \<Longrightarrow>
     songs s' = songs s \<and> current_song_index s' = current_song_index s"
  by (auto simp: read_pause_back_def split: sum.splits prod.splits if_splits)

lemma ipc_toggle_frame:
  "ipc_toggle w path s = (Inr s', a) \<Longrightarrow>
     songs s' = songs s \<and> current_song_index s' = current_song_index s"
  by (auto simp: ipc_toggle_def split: option.splits sum.splits prod.splits if_splits
      dest!: read_pause_back_frame)

lemma toggle_play_pause_frame:
  "toggle_play_pause w s = Inr (s', a) \<Longrightarrow>
     songs s' = songs s \<and> current_song_index s' = current_song_index s"
  by (auto simp: toggle_play_pause_def split: option.splits sum.splits prod.splits if_splits
      dest!: ipc_toggle_frame signal_toggle_frame)

lemma slice_from_succ: "0 \<le> i \<Longrightarrow> slice_from xs (i + 1) = drop (Suc (nat i)) xs"
  by (simp add: slice_from_def slice_bound_def nat_add_distrib min_def)

lemma slice_upto_succ: "0 \<le> i \<Longrightarrow> slice_upto xs (i + 1) = take (Suc (nat i)) xs"
  by (simp add: slice_upto_def slice_bound_def nat_add_distrib min_def)

lemma slice_lengths: "length (slice_upto xs k) + length (slice_from xs k) = length xs"
  by (simp add: slice_upto_def slice_from_def)

lemma toggle_shuffle_length: "length (songs (toggle_shuffle w s)) = length (songs s)"
  using slice_lengths [of "songs s" "current_song_index s + 1"]
  by (simp add: toggle_shuffle_def Let_def length_random_shuffle)

lemma toggle_shuffle_index: "current_song_index (toggle_shuffle w s) = current_song_index s"
  by (simp add: toggle_shuffle_def Let_def)

lemma toggle_shuffle_flag: "shuffle (toggle_shuffle w s) = (\<not> shuffle s)"
  by (simp add: toggle_shuffle_def Let_def)

lemma toggle_shuffle_others:
  "toggle_shuffle w s = s\<lparr>songs := songs (toggle_shuffle w s), shuffle := \<not> shuffle s\<rparr>"
  by (simp add: toggle_shuffle_def Let_def)

lemma toggle_shuffle_songs:
  assumes "0 \<le> current_song_index s"
  shows "songs (toggle_shuffle w s) = songs s
       \<or> songs (toggle_shuffle w s)
            = take (Suc (nat (current_song_index s))) (songs s)
              @ random_shuffle (w_randbelow w) (drop (Suc (nat (current_song_index s))) (songs s))"
  using assms by (simp add: toggle_shuffle_def Let_def slice_from_succ slice_upto_succ)

lemma toggle_shuffle_prefix:
  assumes "0 \<le> current_song_index s" and "current_song_index s < int (length (songs s))"
  shows "take (Suc (nat (current_song_index s))) (songs (toggle_shuffle w s))
           = take (Suc (nat (current_song_index s))) (songs s)"
proof -
  have "Suc (nat (current_song_index s)) \<le> length (songs s)" using assms by linarith
  then show ?thesis using toggle_shuffle_songs [OF assms(1), of w] by auto
qed

lemma toggle_shuffle_suffix:
  assumes "0 \<le> current_song_index s" and "current_song_index s < int (length (songs s))"
  shows "mset (drop (Suc (nat (current_song_index s))) (songs (toggle_shuffle w s)))
           = mset (drop (Suc (nat (current_song_index s))) (songs s))"
proof -
  have "Suc (nat (current_song_index s)) \<le> length (songs s)" using assms by linarith
  then show ?thesis using toggle_shuffle_songs [OF assms(1), of w]
    by (auto simp: mset_random_shuffle)
qed

section \<open>The index stays inside the playlist\<close>

lemma loaded_in_range: "index_in_range (loaded pls)"
  by (simp add: index_in_range_def loaded_def init_def)

lemma play_current_song_in_range:
  "play_current_song w s = Inr (s', a) \<Longrightarrow> index_in_range s \<Longrightarrow> index_in_range s'"
  by (auto simp: index_in_range_def dest!: play_current_song_frame)

lemma start_playlist_in_range:
  assumes "start_playlist w playlist_name s = Inr (s', a)"
  shows "index_in_range s'"
proof -
  obtain tracks where t: "w_parse_m3u8 w playlist_name = Inr tracks"
    using assms by (auto simp: start_playlist_def split: sum.splits)
  show ?thesis
  proof (cases "tracks = []")
    case True
    then show ?thesis using assms t by (auto simp: start_playlist_def index_in_range_def)
  next
    case False
    then show ?thesis using assms t
      by (auto simp: start_playlist_def Let_def index_in_range_def length_random_shuffle
          split: if_splits dest!: play_current_song_frame)
  qed
qed

lemma next_song_in_range:
  "next_song w s = Inr (s', a) \<Longrightarrow> index_in_range s \<Longrightarrow> index_in_range s'"
  by (auto simp: next_song_def index_in_range_def split: if_splits
      dest!: play_current_song_frame)

lemma previous_song_in_range:
  "previous_song w s = Inr (s', a) \<Longrightarrow> index_in_range s \<Longrightarrow> index_in_range s'"
  by (auto simp: previous_song_def index_in_range_def split: if_splits
      dest!: play_current_song_frame)

lemma toggle_shuffle_in_range: "index_in_range s \<Longrightarrow> index_in_range (toggle_shuffle w s)"
  using toggle_shuffle_length [of w s] toggle_shuffle_index [of w s]
  by (auto simp: index_in_range_def)

lemma check_player_status_in_range:
  "check_player_status w s = Inr (s', a) \<Longrightarrow> index_in_range s \<Longrightarrow> index_in_range s'"
  by (auto simp: check_player_status_def split: option.splits if_splits
      dest: next_song_in_range)

lemma perform_in_range:
  assumes "perform w c s = Inr (s', a)" and "index_in_range s"
  shows "index_in_range s'"
proof (cases c)
  case (StartPlaylist playlist_name)
  then show ?thesis using assms by (auto dest: start_playlist_in_range)
next
  case PlayCurrentSong
  then show ?thesis using assms by (auto dest: play_current_song_in_range)
next
  case NextSong
  then show ?thesis using assms by (auto dest: next_song_in_range)
next
  case PreviousSong
  then show ?thesis using assms by (auto dest: previous_song_in_range)
next
  case ToggleShuffle
  then show ?thesis using assms by (auto dest: toggle_shuffle_in_range)
next
  case TogglePlayPause
  then show ?thesis using assms
    by (auto simp: index_in_range_def dest!: toggle_play_pause_frame)
next
  case CheckPlayerStatus
  then show ?thesis using assms by (auto dest: check_player_status_in_range)
next
  case NavigateUp
  then show ?thesis using assms by (auto simp: index_in_range_def split: if_splits)
next
  case NavigateDown
  then show ?thesis using assms by (auto simp: index_in_range_def split: if_splits)
qed

lemma run_commands_in_range:
  "run_commands cs s = Inr s' \<Longrightarrow> index_in_range s \<Longrightarrow> index_in_range s'"
proof (induction cs arbitrary: s)
  case Nil
  then show ?case by simp
next
  case (Cons cw cs)
  obtain c w where cw: "cw = (c, w)" by (cases cw)
  from Cons.prems(1) cw obtain s1 a where
    p: "perform w c s = Inr (s1, a)" and r: "run_commands cs s1 = Inr s'"
    by (auto split: sum.splits)
  from perform_in_range [OF p Cons.prems(2)] have "index_in_range s1" .
  with Cons.IH r show ?case by blast
qed

text \<open>
  C1. In every state the player reaches from the freshly built object, whatever playlists
  were found, by any sequence of \<^verbatim>\<open>start_playlist\<close>, \<^verbatim>\<open>play_current_song\<close>, \<^verbatim>\<open>next_song\<close>,
  \<^verbatim>\<open>previous_song\<close>, \<^verbatim>\<open>toggle_shuffle\<close>, \<^verbatim>\<open>toggle_play_pause\<close> and \<^verbatim>\<open>check_player_status\<close>
  calls and navigation keys, in whatever worlds they run, a non-empty song list comes
  with an index that satisfies \<open>0 \<le> current_song_index < len(songs)\<close>.
\<close>

theorem current_song_index_in_range:
  assumes "run_commands cs (loaded pls) = Inr s" and "songs s \<noteq> []"
  shows "0 \<le> current_song_index s \<and> current_song_index s < int (length (songs s))"
  using run_commands_in_range [OF assms(1) loaded_in_range] assms(2)
  by (simp add: index_in_range_def)

text \<open>The session \<open>demo_session\<close> runs through every command and ends on a valid index.\<close>

theorem current_song_index_in_range_witness:
  "run_commands demo_session (loaded [''mix'']) = Inr demo_final
   \<and> songs demo_final \<noteq> []
   \<and> 0 \<le> current_song_index demo_final
   \<and> current_song_index demo_final < int (length (songs demo_final))"
proof -
  have r: "run_commands demo_session (loaded [''mix'']) = Inr demo_final"
    by (simp add: demo_session_def demo_final_def demo_started_def demo_world_def init_def loaded_def
        reply_with_def start_playlist_def play_current_song_def stop_playback_def
        socket_ready_def py_index_def next_song_def previous_song_def toggle_shuffle_def
        slice_from_def slice_upto_def slice_bound_def random_shuffle_def
        toggle_play_pause_def ipc_toggle_def read_pause_back_def send_recv_def json_loads_def
        check_player_status_def)
  have ne: "songs demo_final \<noteq> []"
    by (simp add: demo_final_def demo_started_def)
  show ?thesis
    using r ne current_song_index_in_range [OF r ne] by simp
qed

section \<open>Advancing wraps around\<close>

lemma next_song_step:
  assumes "next_song w s = Inr (s', a)" and "songs s \<noteq> []"
  shows "songs s' = songs s"
    and "current_song_index s' = (current_song_index s + 1) mod int (length (songs s))"
  using assms by (auto simp: next_song_def dest!: play_current_song_frame)

lemma play_current_song_returns:
  assumes "spawn_settles w"
    and "0 \<le> current_song_index s" and "current_song_index s < int (length (songs s))"
  shows "\<exists>s' a. play_current_song w s = Inr (s', a)"
proof -
  obtain a where a: "stop_playback w s = (s\<lparr>player_process := None, ipc_socket := None\<rparr>, a)"
    using stop_playback_result by blast
  show ?thesis using assms a
    by (auto simp: play_current_song_def py_index_def spawn_settles_def Let_def
        split: sum.splits)
qed

lemma next_song_returns:
  assumes "spawn_settles w"
  shows "\<exists>s' a. next_song w s = Inr (s', a)"
proof (cases "songs s = []")
  case True
  then show ?thesis by (simp add: next_song_def)
next
  case False
  let ?t = "s\<lparr>current_song_index := (current_song_index s + 1) mod int (length (songs s))\<rparr>"
  have "0 \<le> current_song_index ?t" "current_song_index ?t < int (length (songs ?t))"
    using False by simp_all
  from play_current_song_returns [OF assms this] show ?thesis
    using False by (simp add: next_song_def)
qed

lemma next_songs_returns:
  "list_all spawn_settles ws \<Longrightarrow> \<exists>s' trace. next_songs ws s = Inr (s', trace)"
proof (induction ws arbitrary: s)
  case Nil
  then show ?case by simp
next
  case (Cons w ws)
  have sw: "spawn_settles w" and sws: "list_all spawn_settles ws"
    using Cons.prems by simp_all
  obtain s1 a where n: "next_song w s = Inr (s1, a)"
    using next_song_returns [OF sw] by blast
  obtain s' trace where r: "next_songs ws s1 = Inr (s', trace)"
    using Cons.IH [OF sws] by blast
  show ?case using n r by simp
qed

lemma next_songs_trace:
  assumes "next_songs ws s = Inr (s', trace)" and "songs s \<noteq> []"
    and "0 \<le> current_song_index s" and "current_song_index s < int (length (songs s))"
  shows "songs s' = songs s
       \<and> current_song_index s'
           = (current_song_index s + int (length ws)) mod int (length (songs s))
       \<and> trace = map (\<lambda>k. (current_song_index s + 1 + int k) mod int (length (songs s)))
                      [0..<length ws]"
  using assms
proof (induction ws arbitrary: s trace)
  case Nil
  then show ?case by simp
next
  case (Cons w ws)
  let ?n = "int (length (songs s))"
  let ?i = "current_song_index s"
  from Cons.prems(1) obtain s1 a tr where
    n1: "next_song w s = Inr (s1, a)" and r: "next_songs ws s1 = Inr (s', tr)"
    and tr: "trace = current_song_index s1 # tr"
    by (auto split: sum.splits)
  have s1: "songs s1 = songs s" and i1: "current_song_index s1 = (?i + 1) mod ?n"
    using next_song_step [OF n1 Cons.prems(2)] by simp_all
  have npos: "0 < ?n" using Cons.prems(2) by simp
  have rng: "0 \<le> current_song_index s1" "current_song_index s1 < int (length (songs s1))"
    using i1 s1 npos by simp_all
  have ne: "songs s1 \<noteq> []" using s1 Cons.prems(2) by simp
  from Cons.IH [OF r ne rng] have
    ih1: "songs s' = songs s1"
    and ih2: "current_song_index s'
                = (current_song_index s1 + int (length ws)) mod int (length (songs s1))"
    and ih3: "tr = map (\<lambda>k. (current_song_index s1 + 1 + int k) mod int (length (songs s1)))
                       [0..<length ws]"
    by simp_all
  have shift: "((?i + 1) mod ?n + 1 + int k) mod ?n = (?i + 1 + int (Suc k)) mod ?n" for k
  proof -
    have "((?i + 1) mod ?n + (1 + int k)) mod ?n = ((?i + 1) + (1 + int k)) mod ?n"
      by (rule mod_add_left_eq)
    then show ?thesis by (simp add: algebra_simps)
  qed
  have a: "songs s' = songs s" using ih1 s1 by simp
  have b: "current_song_index s' = (?i + int (length (w # ws))) mod ?n"
  proof -
    have "current_song_index s' = ((?i + 1) mod ?n + int (length ws)) mod ?n"
      using ih2 i1 s1 by simp
    also have "\<dots> = ((?i + 1) + int (length ws)) mod ?n"
      by (rule mod_add_left_eq)
    finally show ?thesis by (simp add: algebra_simps)
  qed
  have c: "trace = map (\<lambda>k. (?i + 1 + int k) mod ?n) [0..<length (w # ws)]"
  proof -
    have "[0..<length (w # ws)] = 0 # map Suc [0..<length ws]"
      by (simp add: upt_conv_Cons map_Suc_upt del: upt_Suc)
    then have "map (\<lambda>k. (?i + 1 + int k) mod ?n) [0..<length (w # ws)]
        = (?i + 1) mod ?n # map (\<lambda>k. (?i + 1 + int (Suc k)) mod ?n) [0..<length ws]"
      by (simp add: comp_def del: upt_Suc)
    also have "\<dots> = current_song_index s1 # tr"
      using ih3 i1 s1 shift by simp
    finally show ?thesis using tr by simp
  qed
  from a b c show ?case by blast
qed

text \<open>
  C2. On a non-empty song list of length \<open>n\<close> with the index inside the list (which C1
  gives for every state the player reaches), the \<open>k\<close>-th of a series of \<^verbatim>\<open>next_song\<close> calls
  leaves the index at \<open>(i + k) mod n\<close>, so \<open>n\<close> calls bring it back to its original value.
  A 3-track playlist started with shuffle off begins at index 0 and three calls give
  1, 2, 0: that run is proved right after the theorem.
\<close>

theorem next_song_wrap_around:
  assumes "songs s \<noteq> []"
    and "0 \<le> current_song_index s" and "current_song_index s < int (length (songs s))"
    and "next_songs ws s = Inr (s', trace)"
  shows "trace = map (\<lambda>k. (current_song_index s + 1 + int k) mod int (length (songs s)))
                     [0..<length ws]
       \<and> (length ws = length (songs s) \<longrightarrow> current_song_index s' = current_song_index s)"
  using next_songs_trace [OF assms(4) assms(1) assms(2) assms(3)] assms(2,3)
  by auto

theorem next_song_wrap_around_witness:
  "shuffle init = False
   \<and> start_playlist demo_world ''mix'' init
       = Inr (demo_started, [Spawn (player_argv ''/tmp/mpv_music_player_7.sock'' ''a.mp3'')])
   \<and> songs demo_started = [''a.mp3'', ''b.mp3'', ''c.mp3'']
   \<and> current_song_index demo_started = 0
   \<and> next_songs [demo_world, demo_world, demo_world] demo_started = Inr (demo_started, [1, 2, 0])
   \<and> length [demo_world, demo_world, demo_world] = length (songs demo_started)
   \<and> [1, 2, 0] = map (\<lambda>k. (current_song_index demo_started + 1 + int k)
                               mod int (length (songs demo_started)))
                      [0..<length [demo_world, demo_world, demo_world]]"
proof -
  have off: "shuffle init = False"
    by (simp add: init_def)
  have start: "start_playlist demo_world ''mix'' init
       = Inr (demo_started, [Spawn (player_argv ''/tmp/mpv_music_player_7.sock'' ''a.mp3'')])"
    by (simp add: start_playlist_def demo_world_def init_def play_current_song_def
        stop_playback_def socket_ready_def py_index_def demo_started_def)
  have run: "next_songs [demo_world, demo_world, demo_world] demo_started
               = Inr (demo_started, [1, 2, 0])"
    by (simp add: next_song_def demo_world_def play_current_song_def stop_playback_def
        socket_ready_def py_index_def demo_started_def)
  have q: "songs demo_started = [''a.mp3'', ''b.mp3'', ''c.mp3'']"
    "current_song_index demo_started = 0"
    "length [demo_world, demo_world, demo_world] = length (songs demo_started)"
    by (simp_all add: demo_started_def)
  have h: "songs demo_started \<noteq> []" "0 \<le> current_song_index demo_started"
    "current_song_index demo_started < int (length (songs demo_started))"
    by (simp_all add: demo_started_def)
  from next_song_wrap_around [OF h run] off start run q
  show ?thesis by blast
qed

section \<open>Shuffle keeps the history\<close>

text \<open>
  C8. With a non-empty song list and the index inside it, \<^verbatim>\<open>toggle_shuffle\<close> flips the
  shuffle flag, keeps \<open>current_song_index\<close> and the songs at positions \<open>0\<close> to
  \<open>current_song_index\<close>, turns the songs after \<open>current_song_index\<close> into a permutation of
  themselves and touches no other attribute; a second \<^verbatim>\<open>toggle_shuffle\<close> right after brings
  the flag back to its first value, whatever the random draws.
\<close>

theorem toggle_shuffle_keeps_history:
  assumes "songs s \<noteq> []"
    and "0 \<le> current_song_index s" and "current_song_index s < int (length (songs s))"
  shows "shuffle (toggle_shuffle w s) = (\<not> shuffle s)
       \<and> current_song_index (toggle_shuffle w s) = current_song_index s
       \<and> take (Suc (nat (current_song_index s))) (songs (toggle_shuffle w s))
           = take (Suc (nat (current_song_index s))) (songs s)
       \<and> mset (drop (Suc (nat (current_song_index s))) (songs (toggle_shuffle w s)))
           = mset (drop (Suc (nat (current_song_index s))) (songs s))
       \<and> toggle_shuffle w s = s\<lparr>songs := songs (toggle_shuffle w s), shuffle := \<not> shuffle s\<rparr>
       \<and> shuffle (toggle_shuffle w' (toggle_shuffle w s)) = shuffle s"
  using toggle_shuffle_prefix [OF assms(2,3), of w] toggle_shuffle_suffix [OF assms(2,3), of w]
    toggle_shuffle_others [of w s]
  by (simp add: toggle_shuffle_flag toggle_shuffle_index)

text \<open>In \<open>demo_queue\<close> the two played tracks stay and the three to come are reordered.\<close>

theorem toggle_shuffle_keeps_history_witness:
  "songs demo_queue = [''a.mp3'', ''b.mp3'', ''c.mp3'', ''d.mp3'', ''e.mp3'']
   \<and> current_song_index demo_queue = 1
   \<and> songs (toggle_shuffle demo_world demo_queue)
       = [''a.mp3'', ''b.mp3'', ''d.mp3'', ''e.mp3'', ''c.mp3'']
   \<and> shuffle (toggle_shuffle demo_world demo_queue) = (\<not> shuffle demo_queue)
   \<and> current_song_index (toggle_shuffle demo_world demo_queue) = current_song_index demo_queue
   \<and> take (Suc (nat (current_song_index demo_queue))) (songs (toggle_shuffle demo_world demo_queue))
       = take (Suc (nat (current_song_index demo_queue))) (songs demo_queue)
   \<and> mset (drop (Suc (nat (current_song_index demo_queue)))
             (songs (toggle_shuffle demo_world demo_queue)))
       = mset (drop (Suc (nat (current_song_index demo_queue))) (songs demo_queue))
   \<and> shuffle (toggle_shuffle demo_world (toggle_shuffle demo_world demo_queue))
       = shuffle demo_queue"
proof -
  have h: "songs demo_queue \<noteq> []" "0 \<le> current_song_index demo_queue"
    "current_song_index demo_queue < int (length (songs demo_queue))"
    by (simp_all add: demo_queue_def demo_started_def)
  have q: "songs demo_queue = [''a.mp3'', ''b.mp3'', ''c.mp3'', ''d.mp3'', ''e.mp3'']"
    "current_song_index demo_queue = 1"
    by (simp_all add: demo_queue_def demo_started_def)
  have t: "songs (toggle_shuffle demo_world demo_queue)
       = [''a.mp3'', ''b.mp3'', ''d.mp3'', ''e.mp3'', ''c.mp3'']"
    by (simp add: demo_queue_def demo_started_def demo_world_def toggle_shuffle_def
        slice_from_def slice_upto_def slice_bound_def random_shuffle_def numeral_2_eq_2)
  from toggle_shuffle_keeps_history [OF h, of demo_world demo_world] q t
  show ?thesis by blast
qed

section \<open>An empty playlist\<close>

text \<open>
  C9. When the playlist resolves to no track, \<^verbatim>\<open>start_playlist\<close> returns normally, having
  recorded the playlist name and the empty song list and nothing else: no song is
  started, no call is made on a process, a socket or a file (so no player is spawned),
  and the current song index and the process handle are what they were.
\<close>

theorem start_playlist_empty:
  assumes "w_parse_m3u8 w playlist_name = Inr []"
  shows "start_playlist w playlist_name s
           = Inr (s\<lparr>current_playlist := Some playlist_name, songs := []\<rparr>, [])
       \<and> current_song_index (s\<lparr>current_playlist := Some playlist_name, songs := []\<rparr>)
           = current_song_index s
       \<and> player_process (s\<lparr>current_playlist := Some playlist_name, songs := []\<rparr>)
           = player_process s"
  using assms by (simp add: start_playlist_def)

theorem start_playlist_empty_witness:
  "w_parse_m3u8 demo_world ''none'' = Inr []
   \<and> start_playlist demo_world ''none'' init
       = Inr (init\<lparr>current_playlist := Some ''none'', songs := []\<rparr>, [])
   \<and> start_playlist demo_world ''none'' demo_queue
       = Inr (demo_queue\<lparr>current_playlist := Some ''none'', songs := []\<rparr>, [])
   \<and> current_song_index (demo_queue\<lparr>current_playlist := Some ''none'', songs := []\<rparr>) = 1"
proof -
  have h: "w_parse_m3u8 demo_world ''none'' = Inr []"
    by (simp add: demo_world_def)
  show ?thesis
    using h start_playlist_empty [OF h, of init] start_playlist_empty [OF h, of demo_queue]
    by (simp add: demo_queue_def)
qed

section \<open>Nothing to pause, nothing to measure\<close>

text \<open>
  C10. When the process handle is absent, or the handle is there and the process has
  exited, \<^verbatim>\<open>toggle_play_pause\<close> returns at once: the whole player object, the paused flag
  included, is what it was, and no signal was sent and no socket call made.
\<close>

theorem toggle_play_pause_not_running:
  assumes "player_process s = None \<or> w_poll w \<noteq> None"
  shows "toggle_play_pause w s = Inr (s, [])"
  using assms by (auto simp: toggle_play_pause_def split: option.splits)

theorem toggle_play_pause_not_running_witness:
  "player_process init = None
   \<and> toggle_play_pause demo_world init = Inr (init, [])
   \<and> w_poll (demo_world\<lparr>w_poll := Some 0\<rparr>) = Some 0
   \<and> toggle_play_pause (demo_world\<lparr>w_poll := Some 0\<rparr>) demo_started = Inr (demo_started, [])"
  using toggle_play_pause_not_running [of init demo_world]
    toggle_play_pause_not_running [of demo_started "demo_world\<lparr>w_poll := Some 0\<rparr>"]
  by (simp add: init_def)

text \<open>
  C5. When the process handle is absent, or the process has exited, or the socket path
  is absent (the attribute is \<^verbatim>\<open>None\<close> or empty, or no file is at the path),
  \<^verbatim>\<open>get_progress\<close> returns \<open>(0, 0, 0)\<close> without a single socket call.
\<close>

theorem get_progress_unavailable:
  assumes "player_process s = None \<or> w_poll w \<noteq> None
         \<or> ipc_socket s = None \<or> ipc_socket s = Some [] \<or> \<not> w_socket_exists w"
  shows "get_progress w s = Inr ((0, 0, 0), [])"
  using assms by (auto simp: get_progress_def socket_ready_def split: option.splits)

theorem get_progress_unavailable_witness:
  "player_process init = None
   \<and> get_progress demo_world init = Inr ((0, 0, 0), [])
   \<and> w_poll (demo_world\<lparr>w_poll := Some 0\<rparr>) = Some 0
   \<and> get_progress (demo_world\<lparr>w_poll := Some 0\<rparr>) demo_started = Inr ((0, 0, 0), [])
   \<and> w_socket_exists (demo_world\<lparr>w_socket_exists := False\<rparr>) = False
   \<and> get_progress (demo_world\<lparr>w_socket_exists := False\<rparr>) demo_started = Inr ((0, 0, 0), [])"
  using get_progress_unavailable [of init demo_world]
    get_progress_unavailable [of demo_started "demo_world\<lparr>w_poll := Some 0\<rparr>"]
    get_progress_unavailable [of demo_started "demo_world\<lparr>w_socket_exists := False\<rparr>"]
  by (simp add: init_def)

section \<open>A missing player binary\<close>

lemma play_current_song_missing_binary:
  assumes "songs s \<noteq> []"
    and "0 \<le> current_song_index s" and "current_song_index s < int (length (songs s))"
    and "w_popen w = Inl FileNotFoundError"
  shows "\<exists>a. play_current_song w s
           = Inr (s\<lparr>player_process := None, ipc_socket := Some (w_socket_name w),
                     paused := JBool False, current_song_info := ''Error: mpv not found''\<rparr>,
                  a @ [Spawn (player_argv (w_socket_name w)
                                (songs s ! nat (current_song_index s)))])"
proof -
  obtain a where a: "stop_playback w s = (s\<lparr>player_process := None, ipc_socket := None\<rparr>, a)"
    using stop_playback_result by blast
  show ?thesis using assms a
    by (auto simp: play_current_song_def py_index_def not_found_label_def PLAYER_CMD_def)
qed

text \<open>
  C7. With a non-empty song list and the index inside it, a spawn that fails because the
  player binary is missing makes \<^verbatim>\<open>play_current_song\<close> return normally with the label
  \<open>Error: mpv not found\<close> as current song info and no process handle. A \<^verbatim>\<open>next_song\<close> after
  that, the binary still missing, returns normally as well: the index has advanced by one
  modulo the length of the list, the spawn was tried again for the song at the new index,
  and the player is again without a handle and shows the label.
\<close>

theorem spawn_failure_degrades:
  assumes "songs s \<noteq> []"
    and "0 \<le> current_song_index s" and "current_song_index s < int (length (songs s))"
    and "w_popen w = Inl FileNotFoundError" and "w_popen w' = Inl FileNotFoundError"
  shows "\<exists>s1 a1 s2 a2.
           play_current_song w s = Inr (s1, a1)
         \<and> current_song_info s1 = ''Error: mpv not found''
         \<and> player_process s1 = None
         \<and> next_song w' s1 = Inr (s2, a2)
         \<and> current_song_index s2 = (current_song_index s + 1) mod int (length (songs s))
         \<and> songs s2 = songs s
         \<and> Spawn (player_argv (w_socket_name w') (songs s ! nat (current_song_index s2)))
             \<in> set a2
         \<and> current_song_info s2 = ''Error: mpv not found''
         \<and> player_process s2 = None"
proof -
  let ?n = "int (length (songs s))"
  let ?s1 = "s\<lparr>player_process := None, ipc_socket := Some (w_socket_name w),
                paused := JBool False, current_song_info := ''Error: mpv not found''\<rparr>"
  let ?t = "?s1\<lparr>current_song_index := (current_song_index s + 1) mod ?n\<rparr>"
  let ?s2 = "?t\<lparr>player_process := None, ipc_socket := Some (w_socket_name w'),
                 paused := JBool False, current_song_info := ''Error: mpv not found''\<rparr>"
  obtain a1 where p1: "play_current_song w s
      = Inr (?s1, a1 @ [Spawn (player_argv (w_socket_name w)
                                 (songs s ! nat (current_song_index s)))])"
    using play_current_song_missing_binary [OF assms(1-4)] by blast
  have npos: "0 < ?n" using assms(1) by simp
  have t: "songs ?t \<noteq> []" "0 \<le> current_song_index ?t"
    "current_song_index ?t < int (length (songs ?t))"
    using assms(1) npos by simp_all
  obtain a2 where p2: "play_current_song w' ?t
      = Inr (?s2, a2 @ [Spawn (player_argv (w_socket_name w')
                                 (songs ?t ! nat (current_song_index ?t)))])"
    using play_current_song_missing_binary [OF t assms(5)] by blast
  have n2: "next_song w' ?s1
      = Inr (?s2, a2 @ [Spawn (player_argv (w_socket_name w')
                                 (songs ?t ! nat (current_song_index ?t)))])"
    using p2 assms(1) by (simp add: next_song_def)
  have "play_current_song w s
          = Inr (?s1, a1 @ [Spawn (player_argv (w_socket_name w)
                                     (songs s ! nat (current_song_index s)))])
      \<and> current_song_info ?s1 = ''Error: mpv not found''
      \<and> player_process ?s1 = None
      \<and> next_song w' ?s1
          = Inr (?s2, a2 @ [Spawn (player_argv (w_socket_name w')
                                     (songs ?t ! nat (current_song_index ?t)))])
      \<and> current_song_index ?s2 = (current_song_index s + 1) mod ?n
      \<and> songs ?s2 = songs s
      \<and> Spawn (player_argv (w_socket_name w') (songs s ! nat (current_song_index ?s2)))
          \<in> set (a2 @ [Spawn (player_argv (w_socket_name w')
                                 (songs ?t ! nat (current_song_index ?t)))])
      \<and> current_song_info ?s2 = ''Error: mpv not found''
      \<and> player_process ?s2 = None"
    using p1 n2 by simp
  then show ?thesis by blast
qed

text \<open>
  The session of \<open>demo_started\<close> with the binary gone: the running player is torn down, the
  spawn fails, and \<^verbatim>\<open>next_song\<close> moves on to the second track and fails the same way.
\<close>

theorem spawn_failure_degrades_witness:
  "songs demo_started \<noteq> []
   \<and> 0 \<le> current_song_index demo_started
   \<and> current_song_index demo_started < int (length (songs demo_started))
   \<and> w_popen (demo_world\<lparr>w_popen := Inl FileNotFoundError\<rparr>) = Inl FileNotFoundError
   \<and> play_current_song (demo_world\<lparr>w_popen := Inl FileNotFoundError\<rparr>) demo_started
       = Inr (demo_started\<lparr>player_process := None,
                           current_song_info := ''Error: mpv not found''\<rparr>,
              [Terminate 1, Wait 1, Unlink ''/tmp/mpv_music_player_7.sock'',
               Spawn (player_argv ''/tmp/mpv_music_player_7.sock'' ''a.mp3'')])
   \<and> next_song (demo_world\<lparr>w_popen := Inl FileNotFoundError\<rparr>)
         (demo_started\<lparr>player_process := None, current_song_info := ''Error: mpv not found''\<rparr>)
       = Inr (demo_started\<lparr>player_process := None,
                           current_song_info := ''Error: mpv not found'',
                           current_song_index := 1\<rparr>,
              [Unlink ''/tmp/mpv_music_player_7.sock'',
               Spawn (player_argv ''/tmp/mpv_music_player_7.sock'' ''b.mp3'')])
   \<and> (\<exists>s1 a1 s2 a2.
         play_current_song (demo_world\<lparr>w_popen := Inl FileNotFoundError\<rparr>) demo_started
           = Inr (s1, a1)
       \<and> current_song_info s1 = ''Error: mpv not found''
       \<and> player_process s1 = None
       \<and> next_song (demo_world\<lparr>w_popen := Inl FileNotFoundError\<rparr>) s1 = Inr (s2, a2)
       \<and> current_song_index s2
           = (current_song_index demo_started + 1) mod int (length (songs demo_started))
       \<and> songs s2 = songs demo_started
       \<and> Spawn (player_argv (w_socket_name (demo_world\<lparr>w_popen := Inl FileNotFoundError\<rparr>))
                  (songs demo_started ! nat (current_song_index s2))) \<in> set a2
       \<and> current_song_info s2 = ''Error: mpv not found''
       \<and> player_process s2 = None)"
proof -
  let ?w = "demo_world\<lparr>w_popen := Inl FileNotFoundError\<rparr>"
  have h: "songs demo_started \<noteq> []" "0 \<le> current_song_index demo_started"
    "current_song_index demo_started < int (length (songs demo_started))"
    by (simp_all add: demo_started_def)
  have f: "w_popen ?w = Inl FileNotFoundError"
    by simp
  have p: "play_current_song ?w demo_started
       = Inr (demo_started\<lparr>player_process := None,
                           current_song_info := ''Error: mpv not found''\<rparr>,
              [Terminate 1, Wait 1, Unlink ''/tmp/mpv_music_player_7.sock'',
               Spawn (player_argv ''/tmp/mpv_music_player_7.sock'' ''a.mp3'')])"
    by (simp add: play_current_song_def stop_playback_def socket_ready_def py_index_def
        demo_started_def demo_world_def not_found_label_def PLAYER_CMD_def)
  have n: "next_song ?w
         (demo_started\<lparr>player_process := None, current_song_info := ''Error: mpv not found''\<rparr>)
       = Inr (demo_started\<lparr>player_process := None,
                           current_song_info := ''Error: mpv not found'',
                           current_song_index := 1\<rparr>,
              [Unlink ''/tmp/mpv_music_player_7.sock'',
               Spawn (player_argv ''/tmp/mpv_music_player_7.sock'' ''b.mp3'')])"
    by (simp add: next_song_def play_current_song_def stop_playback_def socket_ready_def
        py_index_def demo_started_def demo_world_def not_found_label_def PLAYER_CMD_def)
  from spawn_failure_degrades [OF h f f] h f p n
  show ?thesis by blast
qed

section \<open>The float model at work\<close>

text \<open>
  \<open>binade\<close> finds the power of two below a positive number, and \<open>nearest64\<close> lands on the
  grid of that binade (or of the subnormal numbers) within half a grid step.
\<close>

lemma pow2_positive: "0 < pow2 k"
  by (simp add: pow2_def)

lemma bit_length_bounds:
  "0 < n \<Longrightarrow> 2 ^ (bit_length n - 1) \<le> n \<and> n < 2 ^ bit_length n"
proof (induction n rule: bit_length.induct)
  case (1 n)
  show ?case
  proof (cases "n div 2 = 0")
    case True
    with "1.prems" have "n = 1" by presburger
    then show ?thesis by (simp add: bit_length.simps)
  next
    case False
    then have h: "0 < n div 2" by simp
    from "1.IH" [OF _ h] "1.prems"
    have ih: "2 ^ (bit_length (n div 2) - 1) \<le> n div 2" "n div 2 < 2 ^ bit_length (n div 2)"
      by simp_all
    have pos: "0 < bit_length (n div 2)"
      using h by (subst bit_length.simps) simp
    have b: "bit_length n = Suc (bit_length (n div 2))"
      using "1.prems" by (subst bit_length.simps) simp
    have "2 ^ (bit_length n - 1) = 2 * 2 ^ (bit_length (n div 2) - 1)"
      using b pos by (cases "bit_length (n div 2)") simp_all
    also have "\<dots> \<le> 2 * (n div 2)" using ih(1) by simp
    also have "\<dots> \<le> n" by simp
    finally have lo: "2 ^ (bit_length n - 1) \<le> n" .
    have "n < 2 * (n div 2) + 2" by presburger
    also have "\<dots> \<le> 2 * 2 ^ bit_length (n div 2)" using ih(2) by simp
    finally have hi: "n < 2 ^ bit_length n" using b by simp
    from lo hi show ?thesis by blast
  qed
qed

lemma round_half_even_near: "\<bar>of_int (round_half_even x) - x\<bar> \<le> 1 / 2"
proof -
  define r where "r = x - of_int \<lfloor>x\<rfloor>"
  have r: "0 \<le> r" "r < 1" unfolding r_def by linarith+
  have x: "x = of_int \<lfloor>x\<rfloor> + r" unfolding r_def by simp
  consider "r < 1 / 2" | "1 / 2 < r" | "r = 1 / 2" by linarith
  then show ?thesis
  proof cases
    case 1
    then have "round_half_even x = \<lfloor>x\<rfloor>"
      by (simp add: round_half_even_def Let_def r_def)
    then show ?thesis using r 1 x by linarith
  next
    case 2
    then have "round_half_even x = \<lfloor>x\<rfloor> + 1"
      by (simp add: round_half_even_def Let_def r_def)
    then show ?thesis using r 2 x by (simp add: abs_if)
  next
    case 3
    then have "round_half_even x = \<lfloor>x\<rfloor> \<or> round_half_even x = \<lfloor>x\<rfloor> + 1"
      by (simp add: round_half_even_def Let_def r_def)
    then show ?thesis using 3 x by (auto simp: abs_if)
  qed
qed

lemma pow2_nat: "pow2 (int k) = 2 ^ k"
  by (simp add: pow2_def)

lemma pow2_neg_nat: "pow2 (- int k) = 1 / 2 ^ k"
  by (cases "k = 0") (simp_all add: pow2_def)

lemma binade_bounds:
  assumes "0 < q"
  shows "pow2 (binade q) \<le> q \<and> q < pow2 (binade q + 1)"
proof (cases "1 \<le> q")
  case True
  define n where "n = nat \<lfloor>q\<rfloor>"
  have n: "0 < n" "of_nat n \<le> q" "q < of_nat n + 1"
    using True unfolding n_def by (simp_all add: le_floor_iff) linarith+
  from bit_length_bounds [OF n(1)]
  have b: "2 ^ (bit_length n - 1) \<le> n" "n < 2 ^ bit_length n" by simp_all
  have pos: "0 < bit_length n" using n(1) by (subst bit_length.simps) simp
  have e: "binade q = int (bit_length n - 1)"
    using True pos by (simp add: binade_def n_def of_nat_diff)
  have lo: "pow2 (binade q) \<le> q"
  proof -
    have "(2::rat) ^ (bit_length n - 1) \<le> of_nat n"
      using b(1) by (metis of_nat_le_iff of_nat_numeral of_nat_power)
    moreover have "pow2 (binade q) = 2 ^ (bit_length n - 1)"
      by (simp only: e pow2_nat)
    ultimately show ?thesis using n(2) by linarith
  qed
  have hi: "q < pow2 (binade q + 1)"
  proof -
    have "n + 1 \<le> 2 ^ bit_length n" using b(2) by simp
    then have "(of_nat (n + 1) :: rat) \<le> of_nat (2 ^ bit_length n)"
      by (rule iffD2 [OF of_nat_le_iff])
    then have "(of_nat n :: rat) + 1 \<le> 2 ^ bit_length n" by simp
    moreover have "binade q + 1 = int (bit_length n)" using e pos by simp
    then have "pow2 (binade q + 1) = 2 ^ bit_length n"
      by (simp only: pow2_nat)
    ultimately show ?thesis using n(3) by linarith
  qed
  from lo hi show ?thesis by blast
next
  case False
  define m where "m = nat (\<lceil>1 / q\<rceil> - 1)"
  have q1: "1 < 1 / q" using assms False by simp
  then have c2: "2 \<le> \<lceil>1 / q\<rceil>" by linarith
  have m: "0 < m" "of_nat m < 1 / q" "1 / q \<le> of_nat m + 1"
    using c2 unfolding m_def by (simp_all add: of_nat_nat) linarith+
  from bit_length_bounds [OF m(1)]
  have b: "2 ^ (bit_length m - 1) \<le> m" "m < 2 ^ bit_length m" by simp_all
  have pos: "0 < bit_length m" using m(1) by (subst bit_length.simps) simp
  have e: "binade q = - int (bit_length m)"
    using False by (simp add: binade_def m_def)
  have lo: "pow2 (binade q) \<le> q"
  proof -
    have "m + 1 \<le> 2 ^ bit_length m" using b(2) by simp
    then have "(of_nat (m + 1) :: rat) \<le> of_nat (2 ^ bit_length m)"
      by (rule iffD2 [OF of_nat_le_iff])
    then have "1 / q \<le> 2 ^ bit_length m" using m(3) by simp
    then have "1 \<le> 2 ^ bit_length m * q"
      using assms by (simp add: pos_divide_le_eq)
    then have "1 / 2 ^ bit_length m \<le> q"
      by (simp add: pos_divide_le_eq mult.commute)
    moreover have "pow2 (binade q) = 1 / 2 ^ bit_length m"
      by (simp only: e pow2_neg_nat)
    ultimately show ?thesis by linarith
  qed
  have hi: "q < pow2 (binade q + 1)"
  proof -
    have "(2::rat) ^ (bit_length m - 1) \<le> of_nat m"
      using b(1) by (metis of_nat_le_iff of_nat_numeral of_nat_power)
    then have "2 ^ (bit_length m - 1) < 1 / q" using m(2) by linarith
    then have "2 ^ (bit_length m - 1) * q < 1"
      using assms by (simp add: pos_less_divide_eq)
    then have "q < 1 / 2 ^ (bit_length m - 1)"
      by (simp add: pos_less_divide_eq mult.commute)
    moreover have "binade q + 1 = - int (bit_length m - 1)"
      using e pos by (simp add: of_nat_diff)
    then have "pow2 (binade q + 1) = 1 / 2 ^ (bit_length m - 1)"
      by (simp only: pow2_neg_nat)
    ultimately show ?thesis by linarith
  qed
  from lo hi show ?thesis by blast
qed

lemma nearest64_near:
  assumes "q \<noteq> 0"
  shows "\<bar>nearest64 q - q\<bar> \<le> pow2 (max (binade \<bar>q\<bar>) (- 1022) - 52) / 2"
    and "\<exists>n. nearest64 q = of_int n * pow2 (max (binade \<bar>q\<bar>) (- 1022) - 52)"
proof -
  define u where "u = pow2 (max (binade \<bar>q\<bar>) (- 1022) - 52)"
  define n where "n = round_half_even (\<bar>q\<bar> / u)"
  have u: "0 < u" unfolding u_def by (rule pow2_positive)
  have v: "nearest64 q = (if q < 0 then - (of_int n * u) else of_int n * u)"
    using assms by (simp add: nearest64_def Let_def u_def n_def)
  have "\<bar>of_int n - \<bar>q\<bar> / u\<bar> \<le> 1 / 2"
    unfolding n_def by (rule round_half_even_near)
  then have "\<bar>of_int n - \<bar>q\<bar> / u\<bar> * u \<le> 1 / 2 * u"
    using u by (simp only: mult_le_cancel_right_pos)
  moreover have "\<bar>of_int n - \<bar>q\<bar> / u\<bar> * u = \<bar>of_int n * u - \<bar>q\<bar>\<bar>"
  proof -
    have "\<bar>of_int n - \<bar>q\<bar> / u\<bar> * u = \<bar>(of_int n - \<bar>q\<bar> / u) * u\<bar>"
      using u by (simp add: abs_mult)
    also have "(of_int n - \<bar>q\<bar> / u) * u = of_int n * u - \<bar>q\<bar>"
      using u by (simp add: algebra_simps)
    finally show ?thesis .
  qed
  ultimately have d: "\<bar>of_int n * u - \<bar>q\<bar>\<bar> \<le> u / 2" by simp
  show "\<bar>nearest64 q - q\<bar> \<le> pow2 (max (binade \<bar>q\<bar>) (- 1022) - 52) / 2"
    using d v unfolding u_def [symmetric] by (auto simp: abs_if split: if_splits)
  show "\<exists>n. nearest64 q = of_int n * pow2 (max (binade \<bar>q\<bar>) (- 1022) - 52)"
  proof (cases "q < 0")
    case True
    then have "nearest64 q = of_int (- n) * u" using v by simp
    then show ?thesis unfolding u_def by blast
  next
    case False
    then have "nearest64 q = of_int n * u" using v by simp
    then show ?thesis unfolding u_def by blast
  qed
qed

lemma floor_numeral_div:
  "\<lfloor>(numeral a :: rat) / numeral b\<rfloor> = numeral a div numeral b"
  using floor_divide_of_int_eq [of "numeral a" "numeral b", where ?'a = rat] by simp

lemma floor_one_div: "\<lfloor>(1 :: rat) / numeral b\<rfloor> = 1 div numeral b"
  using floor_divide_of_int_eq [of 1 "numeral b", where ?'a = rat] by simp

lemma ceiling_numeral_div:
  "\<lceil>(numeral a :: rat) / numeral b\<rceil> = - ((- numeral a) div numeral b)"
  using floor_divide_of_int_eq [of "- numeral a" "numeral b", where ?'a = rat]
  by (simp add: ceiling_def)

lemmas float_eval = round_float_def nearest64_def binade_def bit_length.simps pow2_def
  round_half_even_def Let_def floor_numeral_div floor_one_div ceiling_numeral_div

text \<open>
  Values Python prints for the same inputs: \<^verbatim>\<open>1/3\<close> is \<open>0x1.5555555555555p-2\<close>,
  \<^verbatim>\<open>(1/3)*100\<close> is \<open>33.33333333333333\<close>, \<^verbatim>\<open>0.1\<close> is \<open>3602879701896397 / 2 ** 55\<close>, and a
  quotient in the subnormal range keeps the spacing \<open>2 ** -1074\<close>.
\<close>

lemma round_float_examples:
  "round_float (1 / 3) = FFinite (6004799503160661 / 2 ^ 54)"
  "round_float (6004799503160661 / 2 ^ 54 * 100) = FFinite (2345624805922133 / 2 ^ 46)"
  "round_float (1 / 10) = FFinite (3602879701896397 / 2 ^ 55)"
  "round_float (20240225330731 / 2 ^ 1074 / 3) = FFinite (6746741776910 / 2 ^ 1074)"
  "round_float (1 / 2 ^ 1075) = FFinite 0"
  "round_float (2 ^ 1024) = FInf"
  by (simp_all add: float_eval)

text \<open>
  \<^verbatim>\<open>float(2**53 + 1)\<close> is \<open>2 ** 53\<close>, \<^verbatim>\<open>float(2**53 + 3)\<close> is \<open>2 ** 53 + 4\<close>; the largest
  \<^verbatim>\<open>int\<close> that converts is \<open>2 ** 1024 - 2 ** 970 - 1\<close>, and from \<open>2 ** 1024 - 2 ** 970\<close> on
  \<^verbatim>\<open>float\<close> raises \<^verbatim>\<open>OverflowError\<close>.
\<close>

lemma float_of_int_examples:
  "float_of_int (2 ^ 53 + 1) = Inr (FFinite (2 ^ 53))"
  "float_of_int (2 ^ 53 + 3) = Inr (FFinite (2 ^ 53 + 4))"
  "float_of_int (2 ^ 1024 - 2 ^ 970 - 1) = Inr (FFinite (2 ^ 1024 - 2 ^ 971))"
  "float_of_int (2 ^ 1024 - 2 ^ 970) = Inl OverflowError"
  "float_of_int (2 ^ 1024) = Inl OverflowError"
  "float_of_int (- (2 ^ 1024)) = Inl OverflowError"
  by (simp_all add: float_of_int_def float_eval)


lemma fdiv_returns: "fless (FFinite 0) d \<Longrightarrow> \<exists>r. fdiv p d = Inr r"
  by (cases d; cases p) auto

lemma clamp_percent_min_max:
  "py_min (FFinite 100) (py_max (FFinite 0) x) = clamp_percent x"
  by (cases x) (auto simp: py_min_def py_max_def)

lemma clamp_percent_range: "\<exists>r. clamp_percent x = FFinite r \<and> 0 \<le> r \<and> r \<le> 100"
  by (cases x) auto

lemma percentage_of_clamp:
  "fdiv p d = Inr r \<Longrightarrow> percentage_of p d = Inr (clamp_percent (fmul r (FFinite 100)))"
  by (simp add: percentage_of_def clamp_percent_min_max)


section \<open>Reading the pause state back\<close>

lemma toggle_play_pause_channel:
  assumes "player_process s = Some p" and "w_poll w = None"
    and "ipc_socket s = Some path" and "path \<noteq> []" and "w_socket_exists w"
    and "w_connect w = None"
    and "w_reply1 w = Received (Parsed r1)" and "w_reply2 w = Received reply"
  shows "reply = Parsed (JObject kv) \<Longrightarrow> map_of kv ''data'' = Some v \<Longrightarrow>
           toggle_play_pause w s = Inr (s\<lparr>paused := v\<rparr>, pause_dialogue path)"
    and "reply = Parsed (JObject kv) \<Longrightarrow> map_of kv ''data'' = None \<Longrightarrow>
           toggle_play_pause w s
             = Inr (s\<lparr>paused := JBool (\<not> truthy (paused s))\<rparr>, pause_dialogue path)"
    and "reply = Malformed \<Longrightarrow>
           toggle_play_pause w s
             = Inr (s\<lparr>paused := JBool (\<not> truthy (paused s))\<rparr>, pause_dialogue path)"
  using assms
  by (simp_all add: toggle_play_pause_def socket_ready_def ipc_toggle_def send_recv_def
      read_pause_back_def json_loads_def py_not_def pause_dialogue_def)

text \<open>
  What the socket path does when the read-back is an object or is text that is not JSON:
  a \<open>data\<close> field is adopted as it is, whatever \<open>paused\<close> was; without one, or without
  JSON, a flag that was \<open>True\<close> becomes \<open>False\<close> and a flag that was \<open>False\<close> becomes \<open>True\<close>.
  Nothing else of the player object changes and no signal is sent.
\<close>

lemma pause_read_back:
  assumes "player_process s = Some p" and "w_poll w = None"
    and "ipc_socket s = Some path" and "path \<noteq> []" and "w_socket_exists w"
    and "w_connect w = None"
    and "w_reply1 w = Received (Parsed r1)" and "w_reply2 w = Received reply"
  shows "(\<forall>kv v. reply = Parsed (JObject kv) \<and> map_of kv ''data'' = Some v \<longrightarrow>
            toggle_play_pause w s = Inr (s\<lparr>paused := v\<rparr>, pause_dialogue path))
       \<and> (\<forall>kv b. (reply = Parsed (JObject kv) \<and> map_of kv ''data'' = None \<or> reply = Malformed)
              \<and> paused s = JBool b \<longrightarrow>
            toggle_play_pause w s = Inr (s\<lparr>paused := JBool (\<not> b)\<rparr>, pause_dialogue path))"
proof -
  have "toggle_play_pause w s = Inr (s\<lparr>paused := JBool (\<not> b)\<rparr>, pause_dialogue path)"
    if "reply = Parsed (JObject kv) \<and> map_of kv ''data'' = None \<or> reply = Malformed"
      and "paused s = JBool b" for kv b
    using that toggle_play_pause_channel(2,3) [OF assms] by auto
  then show ?thesis
    using toggle_play_pause_channel(1) [OF assms] by blast
qed

lemma pause_read_back_examples:
  "toggle_play_pause
     (demo_world\<lparr>w_reply1 := reply_with JNull, w_reply2 := reply_with (JBool True)\<rparr>)
     (demo_started\<lparr>paused := JBool True\<rparr>)
     = Inr (demo_started\<lparr>paused := JBool True\<rparr>, pause_dialogue ''/tmp/mpv_music_player_7.sock'')"
  "toggle_play_pause
     (demo_world\<lparr>w_reply1 := reply_with JNull, w_reply2 := reply_with (JBool False)\<rparr>)
     demo_started
     = Inr (demo_started\<lparr>paused := JBool False\<rparr>, pause_dialogue ''/tmp/mpv_music_player_7.sock'')"
  "toggle_play_pause
     (demo_world\<lparr>w_reply1 := reply_with JNull, w_reply2 := reply_unavailable\<rparr>)
     (demo_started\<lparr>paused := JBool True\<rparr>)
     = Inr (demo_started\<lparr>paused := JBool False\<rparr>, pause_dialogue ''/tmp/mpv_music_player_7.sock'')"
  "toggle_play_pause
     (demo_world\<lparr>w_reply1 := reply_with JNull, w_reply2 := reply_unavailable\<rparr>)
     demo_started
     = Inr (demo_started\<lparr>paused := JBool True\<rparr>, pause_dialogue ''/tmp/mpv_music_player_7.sock'')"
  "toggle_play_pause
     (demo_world\<lparr>w_reply1 := reply_with JNull, w_reply2 := Received Malformed\<rparr>)
     (demo_started\<lparr>paused := JBool True\<rparr>)
     = Inr (demo_started\<lparr>paused := JBool False\<rparr>, pause_dialogue ''/tmp/mpv_music_player_7.sock'')"
  by (simp_all add: toggle_play_pause_def socket_ready_def ipc_toggle_def send_recv_def
      read_pause_back_def json_loads_def py_not_def pause_dialogue_def demo_world_def
      demo_started_def reply_with_def reply_unavailable_def)

text \<open>
  C6. The claim wants the paused flag negated whenever the read-back lacks the \<open>data\<close>
  field or fails to parse, and the comments of \<^verbatim>\<open>toggle_play_pause\<close> say the same
  (\<^verbatim>\<open>If we can't get state, just toggle\<close>, \<^verbatim>\<open>If parsing fails, just toggle our state\<close>).
  The handlers do not cover it: a read-back that is not UTF-8 raises
  \<^verbatim>\<open>UnicodeDecodeError\<close>, a read-back that is a bare JSON number or \<^verbatim>\<open>null\<close> raises
  \<^verbatim>\<open>TypeError\<close> at \<^verbatim>\<open>'data' in status_result\<close>, and neither the inner handler
  \<^verbatim>\<open>(JSONDecodeError, KeyError)\<close> nor the outer one (\<^verbatim>\<open>OSError\<close> and its kin) catches
  them, so \<^verbatim>\<open>toggle_play_pause\<close> raises and the flag is not negated. \<^verbatim>\<open>get_progress\<close>
  meets the same undecodable reply with its \<^verbatim>\<open>ValueError\<close> clause and returns zeros.
\<close>

theorem pause_read_back_escapes:
  "paused demo_started = JBool False
   \<and> toggle_play_pause
         (demo_world\<lparr>w_reply1 := reply_with JNull, w_reply2 := NotUtf8\<rparr>) demo_started
       = Inl UnicodeDecodeError
   \<and> toggle_play_pause
         (demo_world\<lparr>w_reply1 := reply_with JNull, w_reply2 := Received (Parsed (JInt 5))\<rparr>)
         demo_started
       = Inl TypeError
   \<and> toggle_play_pause
         (demo_world\<lparr>w_reply1 := reply_with JNull, w_reply2 := Received (Parsed JNull)\<rparr>)
         demo_started
       = Inl TypeError
   \<and> get_progress (demo_world\<lparr>w_reply2 := NotUtf8\<rparr>) demo_started
       = Inr ((0, 0, 0),
              [SockConnect ''/tmp/mpv_music_player_7.sock'',
               SockSend [''get_property'', ''time-pos''], SockRecv,
               SockSend [''get_property'', ''duration''], SockRecv])"
  by (simp add: toggle_play_pause_def socket_ready_def ipc_toggle_def send_recv_def
      read_pause_back_def json_loads_def get_progress_def query_progress_def
      demo_world_def demo_started_def reply_with_def)

section \<open>Position, duration and percentage\<close>

lemma read_property_cases:
  "map_of kv ''data'' = None \<Longrightarrow> read_property fl (JObject kv) = Inr (FFinite 0)"
  "map_of kv ''data'' = Some JNull \<Longrightarrow> read_property fl (JObject kv) = Inr (FFinite 0)"
  "map_of kv ''data'' = Some v \<Longrightarrow> py_float fl v = Inr x \<Longrightarrow>
     read_property fl (JObject kv) = Inr x"
  "map_of kv ''data'' = Some (JString t) \<Longrightarrow> fl t = None \<Longrightarrow>
     read_property fl (JObject kv) = Inl ValueError"
  by (auto simp: read_property_def)

lemma get_progress_channel:
  assumes "player_process s = Some p" and "w_poll w = None"
    and "ipc_socket s = Some path" and "path \<noteq> []" and "w_socket_exists w"
    and "w_connect w = None"
    and "w_reply1 w = Received (Parsed pos_result)"
    and "w_reply2 w = Received (Parsed dur_result)"
  shows "get_progress w s =
     (case read_property (w_float w) pos_result of
        Inl e \<Rightarrow> if is_OSError e \<or> e = JSONDecodeError \<or> e = KeyError \<or> is_ValueError e
                 then Inr ((0, 0, 0), progress_dialogue path) else Inl e
      | Inr position \<Rightarrow>
          (case read_property (w_float w) dur_result of
             Inl e \<Rightarrow> if is_OSError e \<or> e = JSONDecodeError \<or> e = KeyError \<or> is_ValueError e
                      then Inr ((0, 0, 0), progress_dialogue path) else Inl e
           | Inr duration \<Rightarrow>
               if fless (FFinite 0) duration
               then (case percentage_of position duration of
                       Inl e \<Rightarrow> if is_OSError e \<or> e = JSONDecodeError \<or> e = KeyError
                                   \<or> is_ValueError e
                                then Inr ((0, 0, 0), progress_dialogue path) else Inl e
                     | Inr percentage \<Rightarrow>
                         Inr ((position, duration, percentage), progress_dialogue path))
               else Inr ((0, 0, 0), progress_dialogue path)))"
  using assms
  by (auto simp: get_progress_def socket_ready_def query_progress_def send_recv_def
      json_loads_def progress_dialogue_def Let_def split: sum.splits)

text \<open>
  C4. Let the progress query obtain a position and a duration: \<^verbatim>\<open>float\<close> has turned the
  \<open>data\<close> of both replies into floats, and the duration is greater than 0. Then the query
  reports that position, that duration, and as percentage the float
  \<^verbatim>\<open>(position / duration) * 100\<close> clamped to the interval from 0 to 100, which therefore is
  a finite value between 0 and 100. Division and multiplication are those of binary64.
  Position 50 with duration 200 gives exactly 25, position 250 with duration 200 gives
  exactly 100, and position 1 with duration 3 gives \<open>33.33333333333333\<close>, the float
  \<open>2345624805922133 / 2 ^ 46\<close>: these are proved after the theorem.
\<close>

theorem progress_percentage:
  assumes "player_process s = Some p" and "w_poll w = None"
    and "ipc_socket s = Some path" and "path \<noteq> []" and "w_socket_exists w"
    and "w_connect w = None"
    and "w_reply1 w = Received (Parsed (JObject pos))"
    and "w_reply2 w = Received (Parsed (JObject dur))"
    and "map_of pos ''data'' = Some pv" and "py_float (w_float w) pv = Inr position"
    and "map_of dur ''data'' = Some dv" and "py_float (w_float w) dv = Inr duration"
    and "fless (FFinite 0) duration"
  shows "\<exists>ratio percentage.
           fdiv position duration = Inr ratio
         \<and> get_progress w s
             = Inr ((position, duration, clamp_percent (fmul ratio (FFinite 100))),
                    progress_dialogue path)
         \<and> clamp_percent (fmul ratio (FFinite 100)) = FFinite percentage
         \<and> 0 \<le> percentage \<and> percentage \<le> 100"
proof -
  obtain ratio where r: "fdiv position duration = Inr ratio"
    using fdiv_returns [OF assms(13)] by blast
  obtain percentage where c: "clamp_percent (fmul ratio (FFinite 100)) = FFinite percentage"
    "0 \<le> percentage" "percentage \<le> 100"
    using clamp_percent_range by blast
  have "get_progress w s
          = Inr ((position, duration, clamp_percent (fmul ratio (FFinite 100))),
                 progress_dialogue path)"
    using assms(13)
    by (simp add: get_progress_channel [OF assms(1-8)] read_property_cases(3) [OF assms(9,10)]
        read_property_cases(3) [OF assms(11,12)] percentage_of_clamp [OF r])
  with r c show ?thesis by blast
qed

theorem progress_percentage_witness:
  "fless (FFinite 0) (FFinite 200)
   \<and> get_progress demo_world demo_started
       = Inr ((FFinite 50, FFinite 200, FFinite 25),
              progress_dialogue ''/tmp/mpv_music_player_7.sock'')
   \<and> get_progress (demo_world\<lparr>w_reply1 := reply_with (JFloat (FFinite 250))\<rparr>) demo_started
       = Inr ((FFinite 250, FFinite 200, FFinite 100),
              progress_dialogue ''/tmp/mpv_music_player_7.sock'')
   \<and> get_progress (demo_world\<lparr>w_reply1 := reply_with (JInt 1), w_reply2 := reply_with (JInt 3)\<rparr>)
         demo_started
       = Inr ((FFinite 1, FFinite 3, FFinite (2345624805922133 / 2 ^ 46)),
              progress_dialogue ''/tmp/mpv_music_player_7.sock'')"
proof -
  let ?path = "''/tmp/mpv_music_player_7.sock''"
  let ?w2 = "demo_world\<lparr>w_reply1 := reply_with (JFloat (FFinite 250))\<rparr>"
  let ?w3 = "demo_world\<lparr>w_reply1 := reply_with (JInt 1), w_reply2 := reply_with (JInt 3)\<rparr>"
  let ?p50 = "[(''data'', JFloat (FFinite 50)), (''error'', JString ''success'')]"
  let ?p250 = "[(''data'', JFloat (FFinite 250)), (''error'', JString ''success'')]"
  let ?d200 = "[(''data'', JFloat (FFinite 200)), (''error'', JString ''success'')]"
  let ?p1 = "[(''data'', JInt 1), (''error'', JString ''success'')]"
  let ?d3 = "[(''data'', JInt 3), (''error'', JString ''success'')]"
  have s: "player_process demo_started = Some 1" "ipc_socket demo_started = Some ?path"
    "?path \<noteq> []"
    by (simp_all add: demo_started_def)
  have w1: "w_poll demo_world = None" "w_socket_exists demo_world" "w_connect demo_world = None"
    "w_reply1 demo_world = Received (Parsed (JObject ?p50))"
    "w_reply2 demo_world = Received (Parsed (JObject ?d200))"
    by (simp_all add: demo_world_def reply_with_def)
  have w2: "w_poll ?w2 = None" "w_socket_exists ?w2" "w_connect ?w2 = None"
    "w_reply1 ?w2 = Received (Parsed (JObject ?p250))"
    "w_reply2 ?w2 = Received (Parsed (JObject ?d200))"
    by (simp_all add: demo_world_def reply_with_def)
  have w3: "w_poll ?w3 = None" "w_socket_exists ?w3" "w_connect ?w3 = None"
    "w_reply1 ?w3 = Received (Parsed (JObject ?p1))"
    "w_reply2 ?w3 = Received (Parsed (JObject ?d3))"
    by (simp_all add: demo_world_def reply_with_def)
  have m: "map_of ?p50 ''data'' = Some (JFloat (FFinite 50))"
    "map_of ?p250 ''data'' = Some (JFloat (FFinite 250))"
    "map_of ?d200 ''data'' = Some (JFloat (FFinite 200))"
    "map_of ?p1 ''data'' = Some (JInt 1)" "map_of ?d3 ''data'' = Some (JInt 3)"
    by simp_all
  have f: "py_float (w_float demo_world) (JFloat (FFinite 50)) = Inr (FFinite 50)"
    "py_float (w_float demo_world) (JFloat (FFinite 200)) = Inr (FFinite 200)"
    "py_float (w_float ?w2) (JFloat (FFinite 250)) = Inr (FFinite 250)"
    "py_float (w_float ?w2) (JFloat (FFinite 200)) = Inr (FFinite 200)"
    by simp_all
  have fi: "py_float (w_float ?w3) (JInt 1) = Inr (FFinite 1)"
    "py_float (w_float ?w3) (JInt 3) = Inr (FFinite 3)"
    by (simp_all add: float_of_int_def float_eval)
  have pos: "fless (FFinite 0) (FFinite 200)" "fless (FFinite 0) (FFinite 3)"
    by simp_all
  have q1: "fdiv (FFinite 50) (FFinite 200) = Inr (FFinite (1 / 4))"
    and c1: "clamp_percent (fmul (FFinite (1 / 4)) (FFinite 100)) = FFinite 25"
    by (simp_all add: float_eval)
  have q2: "fdiv (FFinite 250) (FFinite 200) = Inr (FFinite (5 / 4))"
    and c2: "clamp_percent (fmul (FFinite (5 / 4)) (FFinite 100)) = FFinite 100"
    by (simp_all add: float_eval)
  have q3: "fdiv (FFinite 1) (FFinite 3) = Inr (FFinite (6004799503160661 / 2 ^ 54))"
    and c3: "clamp_percent (fmul (FFinite (6004799503160661 / 2 ^ 54)) (FFinite 100))
               = FFinite (2345624805922133 / 2 ^ 46)"
    by (simp_all add: float_eval)
  have a: "get_progress demo_world demo_started
             = Inr ((FFinite 50, FFinite 200, FFinite 25), progress_dialogue ?path)"
    using progress_percentage
            [OF s(1) w1(1) s(2) s(3) w1(2) w1(3) w1(4) w1(5) m(1) f(1) m(3) f(2) pos(1)] q1 c1
    by auto
  have b: "get_progress ?w2 demo_started
             = Inr ((FFinite 250, FFinite 200, FFinite 100), progress_dialogue ?path)"
    using progress_percentage
            [OF s(1) w2(1) s(2) s(3) w2(2) w2(3) w2(4) w2(5) m(2) f(3) m(3) f(4) pos(1)] q2 c2
    by auto
  have c: "get_progress ?w3 demo_started
             = Inr ((FFinite 1, FFinite 3, FFinite (2345624805922133 / 2 ^ 46)),
                    progress_dialogue ?path)"
    using progress_percentage
            [OF s(1) w3(1) s(2) s(3) w3(2) w3(3) w3(4) w3(5) m(4) fi(1) m(5) fi(2) pos(2)] q3 c3
    by auto
  from pos(1) a b c show ?thesis by blast
qed

text \<open>
  An \<^verbatim>\<open>int\<close> too large for a float is not a position the query obtains: \<^verbatim>\<open>float\<close> raises
  \<^verbatim>\<open>OverflowError\<close>, which no clause of \<^verbatim>\<open>get_progress\<close> catches.
\<close>

lemma progress_position_overflow:
  "get_progress (demo_world\<lparr>w_reply1 := reply_with (JInt (2 ^ 1024))\<rparr>) demo_started
     = Inl OverflowError"
proof -
  have "float_of_int (2 ^ 1024) = Inl OverflowError"
    by (simp add: float_of_int_def float_eval)
  then show ?thesis
    by (simp add: get_progress_def socket_ready_def query_progress_def send_recv_def
        json_loads_def read_property_def demo_world_def demo_started_def reply_with_def)
qed




end
